theory Spec2Isabelle
  imports Complex_Main "HOL-Library.Multiset"
begin

section \<open>Data model\<close>

text \<open>
  The development embeds \<^verbatim>\<open>gsemantique/data/download.py\<close>: the class
  \<^verbatim>\<open>_STACDownloader\<close> (retry loop, batched download, merge, cleanup, size
  estimate) and the extent computation of \<^verbatim>\<open>Downloader\<close>.

  An item carries the three attributes the code reads: its id, its geometry and its
  datetime. A geometry is kept as the list of its vertex positions; a datetime is a
  point on a linear time axis.
\<close>

type_synonym point = "real \<times> real"

type_synonym geometry_t = "point list"

record item =
  item_id :: string
  geometry :: geometry_t
  datetime :: int

text \<open>Python exceptions that the modelled code can raise.\<close>

datatype error =
    UnboundLocalError
  | ZeroDivisionError
  | ValueError
  | FileNotFoundError
  | IsADirectoryError
  | JSONDecodeError

text \<open>
  A directory is the list of its entries in the order in which \<^verbatim>\<open>os.listdir\<close>
  and \<^verbatim>\<open>os.walk\<close> report them. A regular file has a size in bytes and, when it
  parses as an item collection, the items it lists. A path that does not exist is
  \<open>None\<close>.
\<close>

datatype node = File nat "item list option" | Dir "(string \<times> node) list"

type_synonym entries = "(string \<times> node) list"

type_synonym directory = "entries option"

text \<open>Everything the code prints, its sleeps, and its calls to the two external services.\<close>

datatype event =
    Print_loop nat
  | Print_retry
  | Print_not_all
  | Print_downloaded nat nat
  | Print_success_rate real
  | Print_estimating
  | Print_estimate "real \<times> string" "real option \<times> string"
  | Print_skip_preview
  | Print_paused
  | Print_resumed
  | Sleep nat
  | Sign "item list" bool
  | Download "item list" "string option"

text \<open>
  The collaborators outside the file are parameters. \<open>sign_metadata e k b\<close> is the
  result of the \<open>k\<close>-th call of \<^verbatim>\<open>STACCube._sign_metadata\<close> on batch \<open>b\<close>
  (\<open>None\<close>: the call raises). \<open>download_item_collection e k b f d\<close> is the target
  directory after the \<open>k\<close>-th call of \<^verbatim>\<open>stac_asset.download_item_collection\<close>
  on batch \<open>b\<close> with \<^verbatim>\<open>file_name\<close> \<open>f\<close> (\<open>None\<close>: the argument is not passed)
  into directory \<open>d\<close>. \<open>random_choice\<close> is \<^verbatim>\<open>np.random.choice\<close> under the fixed
  seed, and \<open>json_size\<close> the byte size of a saved item collection.
\<close>

record env =
  sign_metadata :: "nat \<Rightarrow> item list \<Rightarrow> item list option"
  download_item_collection :: "nat \<Rightarrow> item list \<Rightarrow> string option \<Rightarrow> directory \<Rightarrow> directory"
  random_choice :: "item list \<Rightarrow> nat \<Rightarrow> item list"
  json_size :: "item list \<Rightarrow> nat"

record world =
  out_dir :: directory
  sign_calls :: nat
  download_calls :: nat
  console :: "event list"

datatype 'a outcome = Returned 'a world | Raised error world

text \<open>The fields of \<^verbatim>\<open>_STACDownloader\<close> and the keyword arguments it forwards.\<close>

record downloader =
  item_coll :: "item list"
  retries :: int
  preview_size :: nat
  reauth_batch_size :: "nat option"

definition emit :: "world \<Rightarrow> event list \<Rightarrow> world" where
  "emit w evs = w\<lparr>console := console w @ evs\<rparr>"

section \<open>Batching and signing\<close>

text \<open>\<^verbatim>\<open>range(0, n, step)\<close>: a zero step raises.\<close>

definition py_range :: "nat \<Rightarrow> nat \<Rightarrow> error + nat list" where
  "py_range n step =
     (if step = 0 then Inl ValueError
      else Inr (map (\<lambda>k. k * step) [0..<(n + step - 1) div step]))"

text \<open>\<^verbatim>\<open>xs[i : i + n]\<close>.\<close>

definition slice :: "'a list \<Rightarrow> nat \<Rightarrow> nat \<Rightarrow> 'a list" where
  "slice xs i n = take n (drop i xs)"

text \<open>\<^verbatim>\<open>reauth_batch_size or len(item_coll)\<close>.\<close>

definition batch_size_of :: "nat option \<Rightarrow> nat \<Rightarrow> nat" where
  "batch_size_of rbs n = (case rbs of None \<Rightarrow> n | Some b \<Rightarrow> if b = 0 then n else b)"

text \<open>
  The loop \<^verbatim>\<open>while not signed\<close> (lines 416-428, and 334-346 in the preview): the bare
  \<^verbatim>\<open>except\<close> swallows every failure of the signing call, counts it, prints the
  pause line when the count becomes 1 and sleeps one second. The loop has no bound, so
  the model is a partial function: \<open>None\<close> is a loop that never ends.
\<close>

partial_function (option) sign_loop ::
  "env \<Rightarrow> item list \<Rightarrow> nat \<Rightarrow> world \<Rightarrow> (item list \<times> nat \<times> world) option" where
  "sign_loop e batch on_hold_count w =
     (case sign_metadata e (sign_calls w) batch of
        Some signed \<Rightarrow>
          Some (signed, on_hold_count,
                w\<lparr>sign_calls := Suc (sign_calls w),
                  console := console w @ [Sign batch True]\<rparr>)
      | None \<Rightarrow>
          sign_loop e batch (Suc on_hold_count)
            (w\<lparr>sign_calls := Suc (sign_calls w),
               console := console w @ [Sign batch False] @
                 (if Suc on_hold_count = 1 then [Print_paused] else []) @ [Sleep 1]\<rparr>))"

text \<open>
  Lines 413-433: with a re-signing interval the batch is signed and the resume line is
  printed when the loop had to wait; without one the batch is wrapped unchanged.
\<close>

definition reauth :: "env \<Rightarrow> nat option \<Rightarrow> item list \<Rightarrow> world \<Rightarrow> (item list \<times> world) option" where
  "reauth e rbs batch w =
     (case rbs of
        None \<Rightarrow> Some (batch, w)
      | Some b \<Rightarrow>
          (case sign_loop e batch 0 w of
             None \<Rightarrow> None
           | Some (signed, on_hold_count, w') \<Rightarrow>
               Some (signed, if on_hold_count \<noteq> 0 then emit w' [Print_resumed] else w')))"

text \<open>
  The body of \<^verbatim>\<open>for i in range(0, len(coll), batch_size)\<close> (lines 409-459 and
  327-375): slice, sign, download into directory \<open>d\<close> under the file name \<open>fname i\<close>.
\<close>

fun download_batches ::
  "env \<Rightarrow> nat option \<Rightarrow> nat \<Rightarrow> item list \<Rightarrow> (nat \<Rightarrow> string option) \<Rightarrow> nat list \<Rightarrow>
   directory \<Rightarrow> world \<Rightarrow> (directory \<times> world) option" where
  "download_batches e rbs bs coll fname [] d w = Some (d, w)"
| "download_batches e rbs bs coll fname (i # is) d w =
     (case reauth e rbs (slice coll i bs) w of
        None \<Rightarrow> None
      | Some (batch, w1) \<Rightarrow>
          download_batches e rbs bs coll fname is
            (download_item_collection e (download_calls w1) batch (fname i) d)
            (w1\<lparr>download_calls := Suc (download_calls w1),
                console := console w1 @ [Download batch (fname i)]\<rparr>))"

section \<open>Files and directories\<close>

text \<open>Decimal rendering of a batch offset, as the f-string does.\<close>

fun show_nat_fuel :: "nat \<Rightarrow> nat \<Rightarrow> string" where
  "show_nat_fuel 0 n = [''0123456789'' ! (n mod 10)]"
| "show_nat_fuel (Suc k) n =
     (if n < 10 then [''0123456789'' ! n]
      else show_nat_fuel k (n div 10) @ [''0123456789'' ! (n mod 10)])"

definition show_nat :: "nat \<Rightarrow> string" where
  "show_nat n = show_nat_fuel n n"

definition batch_file_name :: "nat \<Rightarrow> string option" where
  "batch_file_name i = Some (''item-collection-batch-'' @ show_nat i @ ''.json'')"

definition startswith :: "string \<Rightarrow> string \<Rightarrow> bool" where
  "startswith f p = (take (length p) f = p)"

fun is_Dir :: "node \<Rightarrow> bool" where
  "is_Dir (Dir es) = True"
| "is_Dir (File s c) = False"

text \<open>\<^verbatim>\<open>pystac.ItemCollection.from_file\<close> on the entry found under a name.\<close>

fun from_file :: "node option \<Rightarrow> error + item list" where
  "from_file None = Inl FileNotFoundError"
| "from_file (Some (Dir es)) = Inl IsADirectoryError"
| "from_file (Some (File s None)) = Inl JSONDecodeError"
| "from_file (Some (File s (Some xs))) = Inr xs"

text \<open>\<^verbatim>\<open>os.remove\<close> of a regular file of the directory.\<close>

definition os_remove :: "string \<Rightarrow> entries \<Rightarrow> entries" where
  "os_remove f es = filter (\<lambda>(m, t). \<not> (m = f \<and> \<not> is_Dir t)) es"

text \<open>
  \<^verbatim>\<open>save_object\<close>: an existing file is overwritten in place, a new one is listed
  last, and a directory under the name makes the write fail.
\<close>

definition save_object :: "env \<Rightarrow> string \<Rightarrow> item list \<Rightarrow> entries \<Rightarrow> error + entries" where
  "save_object e f xs es =
     (case map_of es f of
        None \<Rightarrow> Inr (es @ [(f, File (json_size e xs) (Some xs))])
      | Some (Dir sub) \<Rightarrow> Inl IsADirectoryError
      | Some (File s c) \<Rightarrow>
          Inr (map (\<lambda>(m, t). if m = f \<and> \<not> is_Dir t then (m, File (json_size e xs) (Some xs))
                              else (m, t)) es))"

section \<open>Merging the batch artifacts\<close>

text \<open>
  Lines 471-475: read each batch artifact, extend the item list, delete the artifact.
  A read that fails leaves the artifacts deleted so far deleted.
\<close>

fun merge_loop :: "string list \<Rightarrow> item list \<Rightarrow> entries \<Rightarrow> (error \<times> entries) + (item list \<times> entries)" where
  "merge_loop [] all_items es = Inr (all_items, es)"
| "merge_loop (f # fs) all_items es =
     (case from_file (map_of es f) of
        Inl err \<Rightarrow> Inl (err, es)
      | Inr items \<Rightarrow> merge_loop fs (all_items @ items) (os_remove f es))"

definition coll_paths :: "entries \<Rightarrow> string list" where
  "coll_paths es = filter (\<lambda>f. startswith f ''item-collection-batch-'') (map fst es)"

text \<open>Lines 465-477.\<close>

definition merge_collections :: "env \<Rightarrow> world \<Rightarrow> unit outcome" where
  "merge_collections e w =
     (case out_dir w of
        None \<Rightarrow> Raised FileNotFoundError w
      | Some es \<Rightarrow>
          (case merge_loop (coll_paths es) [] es of
             Inl (err, es') \<Rightarrow> Raised err (w\<lparr>out_dir := Some es'\<rparr>)
           | Inr (all_items, es') \<Rightarrow>
               (case save_object e ''item-collection.json'' all_items es' of
                  Inl err \<Rightarrow> Raised err (w\<lparr>out_dir := Some es'\<rparr>)
                | Inr es'' \<Rightarrow> Returned () (w\<lparr>out_dir := Some es''\<rparr>))))"

section \<open>Removing empty item directories\<close>

text \<open>
  \<^verbatim>\<open>_find_empty_subdirs\<close>: the walk reports the directory itself when it has no
  entry, then every child directory without entries (pruned from the walk), and
  descends into the remaining child directories.
\<close>

fun walk_empty :: "string list \<Rightarrow> entries \<Rightarrow> string list list" where
  "walk_empty dirpath es =
     (if es = [] then [dirpath] else []) @
     concat (map (\<lambda>(n, t). case t of Dir sub \<Rightarrow> if sub = [] then [dirpath @ [n]] else []
                                    | File s c \<Rightarrow> []) es) @
     concat (map (\<lambda>(n, t). case t of Dir sub \<Rightarrow> if sub = [] then []
                                                else walk_empty (dirpath @ [n]) sub
                                    | File s c \<Rightarrow> []) es)"

declare walk_empty.simps [simp del]

definition find_empty_subdirs :: "directory \<Rightarrow> string list list" where
  "find_empty_subdirs d = (case d of None \<Rightarrow> [] | Some es \<Rightarrow> walk_empty [] es)"

text \<open>
  \<^verbatim>\<open>shutil.rmtree\<close> of a directory given by its path below the root. Every path the
  cleanup passes comes from the walk of the same tree, so the directory exists.
\<close>

fun rmtree :: "string list \<Rightarrow> entries \<Rightarrow> entries" where
  "rmtree [] es = es"
| "rmtree [n] es = filter (\<lambda>(m, t). \<not> (m = n \<and> is_Dir t)) es"
| "rmtree (n # p) es =
     map (\<lambda>(m, t). case t of Dir sub \<Rightarrow> if m = n then (m, Dir (rmtree p sub)) else (m, t)
                          | File s c \<Rightarrow> (m, t)) es"

definition rmtree_dir :: "directory \<Rightarrow> string list \<Rightarrow> directory" where
  "rmtree_dir d p = (case d of None \<Rightarrow> None
                     | Some es \<Rightarrow> if p = [] then None else Some (rmtree p es))"

text \<open>\<^verbatim>\<open>os.path.split(x)[-1]\<close>.\<close>

definition basename :: "string list \<Rightarrow> string" where
  "basename p = (if p = [] then [] else last p)"

text \<open>\<^verbatim>\<open>for id in rm_items: all_items.remove(id)\<close>; a missing id raises.\<close>

fun remove_ids :: "string list \<Rightarrow> string list \<Rightarrow> string list option" where
  "remove_ids [] all_items = Some all_items"
| "remove_ids (i # rm_items) all_items =
     (if i \<in> set all_items then remove_ids rm_items (remove1 i all_items) else None)"

text \<open>
  \<^verbatim>\<open>_remove_empty_items\<close> (lines 538-559). The result pairs the outcome with the
  directory as the call leaves it, also when it raises.
\<close>

definition remove_empty_items :: "env \<Rightarrow> directory \<Rightarrow> (error + unit) \<times> directory" where
  "remove_empty_items e d =
     (let empty_dirs = find_empty_subdirs d;
          d1 = foldl rmtree_dir d empty_dirs
      in case d1 of
           None \<Rightarrow> (Inl FileNotFoundError, d1)
         | Some es \<Rightarrow>
             (case from_file (map_of es ''item-collection.json'') of
                Inl err \<Rightarrow> (Inl err, d1)
              | Inr in_coll \<Rightarrow>
                  (case remove_ids (map basename empty_dirs) (map item_id in_coll) of
                     None \<Rightarrow> (Inl ValueError, d1)
                   | Some all_items \<Rightarrow>
                       (case save_object e ''item-collection.json''
                               (filter (\<lambda>x. item_id x \<in> set all_items) in_coll) es of
                          Inl err \<Rightarrow> (Inl err, d1)
                        | Inr es' \<Rightarrow> (Inr (), Some es')))))"

section \<open>Size estimate\<close>

text \<open>\<^verbatim>\<open>_get_dir_size\<close>: the sizes of all regular files below a directory.\<close>

fun node_size :: "node \<Rightarrow> nat" where
  "node_size (File s c) = s"
| "node_size (Dir es) = sum_list (map (\<lambda>(n, t). node_size t) es)"

definition get_dir_size :: "node option \<Rightarrow> nat" where
  "get_dir_size t = (case t of None \<Rightarrow> 0 | Some u \<Rightarrow> (if is_Dir u then node_size u else 0))"

text \<open>
  \<^verbatim>\<open>np.std\<close> (population standard deviation). Floating-point numbers are read as
  the reals they approximate; a value that is not finite is \<open>None\<close>.
\<close>

definition np_mean :: "real list \<Rightarrow> real" where
  "np_mean xs = sum_list xs / real (length xs)"

definition np_std :: "real list \<Rightarrow> real option" where
  "np_std xs =
     (if xs = [] then None
      else Some (sqrt (sum_list (map (\<lambda>x. (x - np_mean xs)\<^sup>2) xs) / real (length xs))))"

text \<open>Lines 391-392: the directory size of every sampled item; a missing directory counts 0.\<close>

definition sampled_sizes :: "entries \<Rightarrow> item list \<Rightarrow> real list" where
  "sampled_sizes es pre_coll = map (\<lambda>x. real (get_dir_size (map_of es (item_id x)))) pre_coll"

text \<open>Lines 385-393, on the scratch directory after its cleanup.\<close>

definition estimate_size :: "directory \<Rightarrow> item list \<Rightarrow> nat \<Rightarrow> error + (real \<times> real option)" where
  "estimate_size temp_dir pre_coll n_total =
     (case temp_dir of
        None \<Rightarrow> Inl FileNotFoundError
      | Some es \<Rightarrow>
          (let n_items = length es in
           if n_items = 0 then Inl ZeroDivisionError
           else
             let mean_size = real (node_size (Dir es)) / real n_items * real n_total;
                 std_size = np_std (sampled_sizes es pre_coll);
                 ci_size = (case std_size of
                              None \<Rightarrow> None
                            | Some sd \<Rightarrow>
                                if n_items = 1 then None
                                else Some (1.96 * sd / sqrt (real (n_items - 1)) * real n_total))
             in Inr (mean_size, ci_size)))"

text \<open>
  \<^verbatim>\<open>_sizeof_fmt\<close> (lines 599-612): the magnitude and the unit that are printed;
  rounding to one decimal is left to the printer. A number that outgrows the last unit
  of the loop is printed with \<^verbatim>\<open>Yi\<close>.
\<close>

fun sizeof_loop :: "string list \<Rightarrow> real \<Rightarrow> real \<times> string" where
  "sizeof_loop [] num = (num, ''YiB'')"
| "sizeof_loop (u # units) num =
     (if \<bar>num\<bar> < 1024 then (num, u @ ''B'') else sizeof_loop units (num / 1024))"

definition binary_units :: "string list" where
  "binary_units = [[], ''Ki'', ''Mi'', ''Gi'', ''Ti'', ''Pi'', ''Ei'', ''Zi'']"

definition sizeof_fmt :: "real \<Rightarrow> real \<times> string" where
  "sizeof_fmt num = sizeof_loop binary_units num"

text \<open>
  The same on a float that may be infinite or not a number (\<open>None\<close>): no comparison of
  the loop holds for it, so it is printed with \<^verbatim>\<open>Yi\<close>.
\<close>

definition sizeof_fmt_opt :: "real option \<Rightarrow> real option \<times> string" where
  "sizeof_fmt_opt x =
     (case x of None \<Rightarrow> (None, ''YiB'')
              | Some num \<Rightarrow> (case sizeof_fmt num of (v, u) \<Rightarrow> (Some v, u)))"

section \<open>One download: preview, batches, merge\<close>

text \<open>
  Lines 305-399. The scratch directory of \<^verbatim>\<open>TemporaryDirectory\<close> starts empty; the
  preview passes no \<^verbatim>\<open>file_name\<close> to the download call.
\<close>

definition preview_run :: "env \<Rightarrow> downloader \<Rightarrow> world \<Rightarrow> unit outcome option" where
  "preview_run e dl w =
     (if preview_size dl \<le> length (item_coll dl) then
        (let w0 = emit w [Print_estimating];
             pre_coll = random_choice e (item_coll dl) (preview_size dl);
             batch_size = batch_size_of (reauth_batch_size dl) (length pre_coll)
         in case py_range (length pre_coll) batch_size of
              Inl err \<Rightarrow> Some (Raised err w0)
            | Inr idxs \<Rightarrow>
                (case download_batches e (reauth_batch_size dl) batch_size pre_coll
                        (\<lambda>i. None) idxs (Some []) w0 of
                   None \<Rightarrow> None
                 | Some (temp_dir, w1) \<Rightarrow>
                     (case remove_empty_items e temp_dir of
                        (Inl err, t) \<Rightarrow> Some (Raised err w1)
                      | (Inr u, temp_dir') \<Rightarrow>
                          (case estimate_size temp_dir' pre_coll (length (item_coll dl)) of
                             Inl err \<Rightarrow> Some (Raised err w1)
                           | Inr (mean_size, ci_size) \<Rightarrow>
                               Some (Returned ()
                                 (emit w1 [Print_estimate (sizeof_fmt mean_size)
                                                          (sizeof_fmt_opt ci_size)]))))))
      else Some (Returned () (emit w [Print_skip_preview])))"

text \<open>\<^verbatim>\<open>_async_download\<close> (lines 281-477).\<close>

definition async_download :: "env \<Rightarrow> downloader \<Rightarrow> world \<Rightarrow> unit outcome option" where
  "async_download e dl w =
     (case preview_run e dl w of
        None \<Rightarrow> None
      | Some (Raised err w') \<Rightarrow> Some (Raised err w')
      | Some (Returned u w1) \<Rightarrow>
          (let batch_size = batch_size_of (reauth_batch_size dl) (length (item_coll dl))
           in case py_range (length (item_coll dl)) batch_size of
                Inl err \<Rightarrow> Some (Raised err w1)
              | Inr idxs \<Rightarrow>
                  (case download_batches e (reauth_batch_size dl) batch_size (item_coll dl)
                          batch_file_name idxs (out_dir w1) w1 of
                     None \<Rightarrow> None
                   | Some (d, w2) \<Rightarrow> Some (merge_collections e (w2\<lparr>out_dir := d\<rparr>)))))"

section \<open>The retry loop\<close>

text \<open>
  Lines 264-270 of \<^verbatim>\<open>run\<close>: print the loop line, download, clean up, read the
  item collection back.
\<close>

definition attempt :: "env \<Rightarrow> downloader \<Rightarrow> nat \<Rightarrow> world \<Rightarrow> item list outcome option" where
  "attempt e dl i w =
     (case async_download e dl (emit w [Print_loop i]) of
        None \<Rightarrow> None
      | Some (Raised err w') \<Rightarrow> Some (Raised err w')
      | Some (Returned u w1) \<Rightarrow>
          (case remove_empty_items e (out_dir w1) of
             (Inl err, d) \<Rightarrow> Some (Raised err (w1\<lparr>out_dir := d\<rparr>))
           | (Inr u', d) \<Rightarrow>
               (case (case d of None \<Rightarrow> Inl FileNotFoundError
                              | Some es \<Rightarrow> from_file (map_of es ''item-collection.json'')) of
                  Inl err \<Rightarrow> Some (Raised err (w1\<lparr>out_dir := d\<rparr>))
                | Inr coll \<Rightarrow> Some (Returned coll (w1\<lparr>out_dir := d\<rparr>)))))"

text \<open>
  The \<^verbatim>\<open>for i in range(self.retries)\<close> loop (lines 263-277). The third argument is
  the rest of the range; the fourth holds the local variables \<^verbatim>\<open>coll\<close> and
  \<^verbatim>\<open>ratio\<close>, unbound before the first iteration.
\<close>

fun run_loop ::
  "env \<Rightarrow> downloader \<Rightarrow> nat list \<Rightarrow> (item list \<times> real) option \<Rightarrow> world \<Rightarrow>
   (item list \<times> real) option outcome option" where
  "run_loop e dl [] locals w = Some (Returned locals w)"
| "run_loop e dl (i # is) locals w =
     (case attempt e dl i w of
        None \<Rightarrow> None
      | Some (Raised err w') \<Rightarrow> Some (Raised err w')
      | Some (Returned coll w1) \<Rightarrow>
          (if length (item_coll dl) = 0 then Some (Raised ZeroDivisionError w1)
           else
             let ratio = real (length coll) / real (length (item_coll dl)) in
             if ratio = 1 then Some (Returned (Some (coll, ratio)) w1)
             else if int i < retries dl - 1
               then run_loop e dl is (Some (coll, ratio)) (emit w1 [Print_retry])
               else run_loop e dl is (Some (coll, ratio)) (emit w1 [Print_not_all])))"

text \<open>\<^verbatim>\<open>_STACDownloader.run\<close> (lines 259-279).\<close>

definition run :: "env \<Rightarrow> downloader \<Rightarrow> world \<Rightarrow> unit outcome option" where
  "run e dl w =
     (case run_loop e dl [0..<nat (retries dl)] None w of
        None \<Rightarrow> None
      | Some (Raised err w') \<Rightarrow> Some (Raised err w')
      | Some (Returned None w') \<Rightarrow> Some (Raised UnboundLocalError w')
      | Some (Returned (Some (coll, ratio)) w') \<Rightarrow>
          Some (Returned ()
            (emit w' [Print_downloaded (length coll) (length (item_coll dl)),
                      Print_success_rate ratio])))"

section \<open>Collection extent\<close>

text \<open>
  The geometry operations come from shapely. The zero-width buffer is a parameter
  \<open>buffer0\<close>. On vertex lists, \<^verbatim>\<open>bounds\<close> is the componentwise minimum and maximum of
  the positions (none for an empty geometry), and \<^verbatim>\<open>unary_union\<close> keeps the positions
  of all its arguments, which is all that the bounding box of a union depends on.
\<close>

type_synonym bbox = "real \<times> real \<times> real \<times> real"

definition bounds :: "geometry_t \<Rightarrow> bbox option" where
  "bounds g =
     (if g = [] then None
      else Some (Min (set (map fst g)), Min (set (map snd g)),
                 Max (set (map fst g)), Max (set (map snd g))))"

definition unary_union :: "geometry_t list \<Rightarrow> geometry_t" where
  "unary_union polygons = concat polygons"

record extent =
  spatial :: "bbox option list"
  temporal :: "(int \<times> int) list"

text \<open>\<^verbatim>\<open>_get_spatial_extent\<close> (lines 183-191).\<close>

definition get_spatial_extent :: "(geometry_t \<Rightarrow> geometry_t) \<Rightarrow> geometry_t list \<Rightarrow> bbox option list" where
  "get_spatial_extent buffer0 polygons = [bounds (unary_union (map buffer0 polygons))]"

text \<open>\<^verbatim>\<open>_get_temporal_extent\<close> (lines 193-199).\<close>

definition get_temporal_extent :: "int \<Rightarrow> int \<Rightarrow> (int \<times> int) list" where
  "get_temporal_extent startime endtime = [(startime, endtime)]"

text \<open>
  \<^verbatim>\<open>_create_full_extent\<close> (lines 115-132); \<^verbatim>\<open>min\<close> and \<^verbatim>\<open>max\<close> of an empty
  list raise.
\<close>

definition create_full_extent :: "(geometry_t \<Rightarrow> geometry_t) \<Rightarrow> item list \<Rightarrow> error + extent" where
  "create_full_extent buffer0 stac_item_list =
     (let polygons = map geometry stac_item_list;
          datetimes = map datetime stac_item_list;
          spatial_extent = get_spatial_extent buffer0 polygons
      in if datetimes = [] then Inl ValueError
         else Inr \<lparr>spatial = spatial_extent,
                   temporal = get_temporal_extent (Min (set datetimes)) (Max (set datetimes))\<rparr>)"

section \<open>Traces used in the statements\<close>

text \<open>
  What the signing loop writes while it waits through \<open>k\<close> failed calls, starting with
  \<^verbatim>\<open>on_hold_count\<close> \<open>h\<close>.
\<close>

fun failed_rounds :: "item list \<Rightarrow> nat \<Rightarrow> nat \<Rightarrow> event list" where
  "failed_rounds batch h 0 = []"
| "failed_rounds batch h (Suc k) =
     [Sign batch False] @ (if h = 0 then [Print_paused] else []) @ [Sleep 1] @
     failed_rounds batch (Suc h) k"

text \<open>The same for a fresh loop, written out: one pause line, then only failed calls and sleeps.\<close>

definition waiting_trace :: "item list \<Rightarrow> nat \<Rightarrow> event list" where
  "waiting_trace batch k =
     (if k = 0 then []
      else [Sign batch False, Print_paused, Sleep 1] @
           concat (replicate (k - 1) [Sign batch False, Sleep 1]))"

fun is_sign :: "event \<Rightarrow> bool" where
  "is_sign (Sign b ok) = True"
| "is_sign ev = False"

fun is_download :: "event \<Rightarrow> bool" where
  "is_download (Download b f) = True"
| "is_download ev = False"

text \<open>The world a call returns normally with, if it does.\<close>

fun returned_world :: "'a outcome option \<Rightarrow> world option" where
  "returned_world (Some (Returned x w)) = Some w"
| "returned_world r = None"

definition signings :: "'a outcome option \<Rightarrow> event list option" where
  "signings r = map_option (\<lambda>w. filter is_sign (console w)) (returned_world r)"

definition downloads :: "'a outcome option \<Rightarrow> event list option" where
  "downloads r = map_option (\<lambda>w. filter is_download (console w)) (returned_world r)"

text \<open>The items a readable item-collection file of a directory lists.\<close>

definition artifact_items :: "entries \<Rightarrow> string \<Rightarrow> item list" where
  "artifact_items es f =
     (case map_of es f of Some (File s (Some xs)) \<Rightarrow> xs | _ \<Rightarrow> [])"

definition readable_artifact :: "entries \<Rightarrow> string \<Rightarrow> bool" where
  "readable_artifact es f =
     (case map_of es f of Some (File s (Some xs)) \<Rightarrow> True | _ \<Rightarrow> False)"

definition is_directory_entry :: "entries \<Rightarrow> string \<Rightarrow> bool" where
  "is_directory_entry es f = (case map_of es f of Some (Dir sub) \<Rightarrow> True | _ \<Rightarrow> False)"

text \<open>The item collection that a call leaves in the output directory when it returns.\<close>

definition collection_after :: "'a outcome option \<Rightarrow> item list option" where
  "collection_after r =
     (case returned_world r of
        None \<Rightarrow> None
      | Some w \<Rightarrow>
          (case out_dir w of
             None \<Rightarrow> None
           | Some es \<Rightarrow>
               (case map_of es ''item-collection.json'' of
                  Some (File s (Some xs)) \<Rightarrow> Some xs
                | _ \<Rightarrow> None)))"

text \<open>Whether a path below the root names a directory.\<close>

fun dir_exists :: "string list \<Rightarrow> entries \<Rightarrow> bool" where
  "dir_exists [] es = True"
| "dir_exists (n # p) es =
     list_ex (\<lambda>(m, t). m = n \<and> (case t of Dir sub \<Rightarrow> dir_exists p sub | File s c \<Rightarrow> False)) es"


text \<open>The names of the entries that are directories without entries.\<close>

definition empty_names :: "entries \<Rightarrow> string list" where
  "empty_names es = map fst (filter (\<lambda>(m, t). t = Dir []) es)"

text \<open>
  The signing and download steps of a console trace: a successful signing call with the
  batch it was given, and a download call with its file name. Failed signing calls,
  sleeps and printed lines are left out.
\<close>

datatype step = Signed "item list" | Downloaded "string option"






text \<open>The exception a call raises, if it does.\<close>

fun raised_error :: "'a outcome option \<Rightarrow> error option" where
  "raised_error (Some (Raised err w)) = Some err"
| "raised_error r = None"

section \<open>Concrete environments\<close>

text \<open>Small inputs on which the statements below are evaluated.\<close>

definition mk_item :: "string \<Rightarrow> item" where
  "mk_item i = \<lparr>item_id = i, geometry = [], datetime = 0\<rparr>"

definition put_entry :: "string \<Rightarrow> node \<Rightarrow> entries \<Rightarrow> entries" where
  "put_entry n t es =
     (if n \<in> fst ` set es then map (\<lambda>(m, u). if m = n then (m, t) else (m, u)) es
      else es @ [(n, t)])"

definition artifact_name :: "string option \<Rightarrow> string" where
  "artifact_name fname = (case fname of None \<Rightarrow> ''item-collection.json'' | Some f \<Rightarrow> f)"

text \<open>
  A download service that fetches one asset file for every item of the batch and lists
  the batch in its artifact.
\<close>

definition fetch_ok :: "nat \<Rightarrow> item list \<Rightarrow> string option \<Rightarrow> directory \<Rightarrow> directory" where
  "fetch_ok k batch fname d =
     Some (put_entry (artifact_name fname) (File 1 (Some batch))
             (foldl (\<lambda>es x. put_entry (item_id x) (Dir [(''asset'', File 1 None)]) es)
                    (case d of None \<Rightarrow> [] | Some es \<Rightarrow> es) batch))"

text \<open>The same service, except that its first call leaves every item directory empty.\<close>

definition fetch_flaky :: "nat \<Rightarrow> item list \<Rightarrow> string option \<Rightarrow> directory \<Rightarrow> directory" where
  "fetch_flaky k batch fname d =
     (if k = 0 then
        Some (put_entry (artifact_name fname) (File 1 (Some batch))
                (foldl (\<lambda>es x. put_entry (item_id x) (Dir []) es)
                       (case d of None \<Rightarrow> [] | Some es \<Rightarrow> es) batch))
      else fetch_ok k batch fname d)"

definition env_ok :: env where
  "env_ok = \<lparr>sign_metadata = (\<lambda>k b. Some b), download_item_collection = fetch_ok,
              random_choice = (\<lambda>xs n. take n xs), json_size = (\<lambda>xs. 1)\<rparr>"

definition env_flaky :: env where
  "env_flaky = \<lparr>sign_metadata = (\<lambda>k b. Some b), download_item_collection = fetch_flaky,
                 random_choice = (\<lambda>xs n. take n xs), json_size = (\<lambda>xs. 1)\<rparr>"

definition world0 :: world where
  "world0 = \<lparr>out_dir = Some [], sign_calls = 0, download_calls = 0, console = []\<rparr>"

definition dl_zero_retries :: downloader where
  "dl_zero_retries = \<lparr>item_coll = [mk_item ''a''], retries = 0, preview_size = 10,
                       reauth_batch_size = Some 1000\<rparr>"

text \<open>A signing service whose first two calls fail, and one that always fails.\<close>

definition env_sign_twice :: env where
  "env_sign_twice = \<lparr>sign_metadata = (\<lambda>k b. if k < 2 then None else Some b),
                      download_item_collection = fetch_ok,
                      random_choice = (\<lambda>xs n. take n xs), json_size = (\<lambda>xs. 1)\<rparr>"

definition env_sign_never :: env where
  "env_sign_never = \<lparr>sign_metadata = (\<lambda>k b. None), download_item_collection = fetch_ok,
                      random_choice = (\<lambda>xs n. take n xs), json_size = (\<lambda>xs. 1)\<rparr>"

definition items25 :: "item list" where
  "items25 = map mk_item
     [''i00'', ''i01'', ''i02'', ''i03'', ''i04'',
      ''i05'', ''i06'', ''i07'', ''i08'', ''i09'',
      ''i10'', ''i11'', ''i12'', ''i13'', ''i14'',
      ''i15'', ''i16'', ''i17'', ''i18'', ''i19'',
      ''i20'', ''i21'', ''i22'', ''i23'', ''i24'']"



definition two_items :: "item list" where
  "two_items = [mk_item ''a'', mk_item ''b'']"

definition dl_unsigned :: downloader where
  "dl_unsigned = \<lparr>item_coll = two_items, retries = 3, preview_size = 10,
                   reauth_batch_size = None\<rparr>"

text \<open>
  A download service on a file system that lists the newest entry first: it differs
  from \<open>fetch_ok\<close> only in the listing order of the directory.
\<close>

definition put_first :: "string \<Rightarrow> node \<Rightarrow> entries \<Rightarrow> entries" where
  "put_first n t es = (n, t) # filter (\<lambda>(m, u). m \<noteq> n) es"

definition fetch_newest_first :: "nat \<Rightarrow> item list \<Rightarrow> string option \<Rightarrow> directory \<Rightarrow> directory" where
  "fetch_newest_first k batch fname d =
     Some (put_first (artifact_name fname) (File 1 (Some batch))
             (foldl (\<lambda>es x. put_first (item_id x) (Dir [(''asset'', File 1 None)]) es)
                    (case d of None \<Rightarrow> [] | Some es \<Rightarrow> es) batch))"

definition env_newest_first :: env where
  "env_newest_first = \<lparr>sign_metadata = (\<lambda>k b. Some b),
                        download_item_collection = fetch_newest_first,
                        random_choice = (\<lambda>xs n. take n xs), json_size = (\<lambda>xs. 1)\<rparr>"

definition dl_two_batches :: downloader where
  "dl_two_batches = \<lparr>item_coll = two_items, retries = 3, preview_size = 10,
                      reauth_batch_size = Some 1\<rparr>"

definition merge_dir :: entries where
  "merge_dir = [(''item-collection-batch-0.json'', File 1 (Some [mk_item ''a''])),
                (''a'', Dir [(''asset'', File 1 None)]),
                (''item-collection-batch-1.json'', File 1 (Some [mk_item ''b''])),
                (''b'', Dir [(''asset'', File 1 None)])]"

text \<open>An output directory with one downloaded item and an empty directory of another name.\<close>

definition stray_dir :: entries where
  "stray_dir = [(''item-collection.json'', File 1 (Some [mk_item ''a''])),
                (''a'', Dir [(''asset'', File 1 None)]),
                (''stray'', Dir [])]"




text \<open>The scratch directory of a preview that downloaded \<open>a\<close> and \<open>b\<close> in two batches.\<close>

definition overwritten_dir :: entries where
  "overwritten_dir = [(''a'', Dir [(''asset'', File 1 None)]),
                      (''item-collection.json'', File 1 (Some [mk_item ''b''])),
                      (''b'', Dir [(''asset'', File 1 None)])]"



text \<open>Two items whose geometries are the unit squares at \<open>(0, 0)\<close> and \<open>(1, 1)\<close>.\<close>

definition square_items :: "item list" where
  "square_items =
     [\<lparr>item_id = ''p'', geometry = [(0, 0), (0, 1), (1, 1), (1, 0), (0, 0)], datetime = 5\<rparr>,
      \<lparr>item_id = ''q'', geometry = [(1, 1), (1, 2), (2, 2), (2, 1), (1, 1)], datetime = 3\<rparr>]"








text \<open>A downloader for an empty collection, and the worlds of a run that needs one retry.\<close>

definition dl_empty :: downloader where
  "dl_empty = \<lparr>item_coll = [], retries = 3, preview_size = 10,
                reauth_batch_size = Some 1000\<rparr>"

definition world_after_first :: world where
  "world_after_first =
     world0\<lparr>out_dir := Some [(''item-collection.json'', File 1 (Some []))],
            download_calls := 1,
            console := [Print_loop 0, Print_skip_preview,
                        Download two_items (batch_file_name 0)]\<rparr>"

definition world_after_second :: world where
  "world_after_second =
     world0\<lparr>out_dir := Some [(''item-collection.json'', File 1 (Some two_items)),
                             (''a'', Dir [(''asset'', File 1 None)]),
                             (''b'', Dir [(''asset'', File 1 None)])],
            download_calls := 2,
            console := [Print_loop 0, Print_skip_preview,
                        Download two_items (batch_file_name 0), Print_retry,
                        Print_loop 1, Print_skip_preview,
                        Download two_items (batch_file_name 0)]\<rparr>"

section \<open>The retry loop needs a positive budget\<close>

text \<open>
  C9. With \<^verbatim>\<open>retries\<close> at most 0 the range of the loop is empty: \<^verbatim>\<open>run\<close> makes no
  download attempt (the world is as before: no call, nothing printed) and the first
  summary line reads the unbound \<^verbatim>\<open>coll\<close>, which raises. In particular
  \<^verbatim>\<open>run\<close> does not return normally.
\<close>

theorem run_without_budget_raises:
  "retries dl \<le> 0 \<Longrightarrow>
     run e dl w = Some (Raised UnboundLocalError w) \<and>
     (\<forall>u w'. run e dl w \<noteq> Some (Returned u w'))"
  by (simp add: run_def)

theorem run_without_budget_raises_witness:
  "retries dl_zero_retries \<le> 0 \<and>
   run env_ok dl_zero_retries world0 = Some (Raised UnboundLocalError world0)"
  using run_without_budget_raises [of dl_zero_retries env_ok world0]
  by (simp add: dl_zero_retries_def)

section \<open>Signing failures are absorbed\<close>

lemma sign_loop_returns:
  "(\<forall>j<k. sign_metadata e (sign_calls w + j) batch = None) \<Longrightarrow>
   sign_metadata e (sign_calls w + k) batch = Some signed \<Longrightarrow>
   sign_loop e batch h w =
     Some (signed, h + k,
           w\<lparr>sign_calls := sign_calls w + k + 1,
             console := console w @ failed_rounds batch h k @ [Sign batch True]\<rparr>)"
proof (induction k arbitrary: h w)
  case 0
  then show ?case by (subst sign_loop.simps) simp
next
  case (Suc k)
  let ?w = "w\<lparr>sign_calls := Suc (sign_calls w),
               console := console w @ [Sign batch False] @
                 (if Suc h = 1 then [Print_paused] else []) @ [Sleep 1]\<rparr>"
  from Suc.prems(1) have first: "sign_metadata e (sign_calls w) batch = None"
    by (metis add.right_neutral zero_less_Suc)
  have rest: "\<forall>j<k. sign_metadata e (sign_calls ?w + j) batch = None"
    using Suc.prems(1) by (auto simp: less_Suc_eq_0_disj)
  have last: "sign_metadata e (sign_calls ?w + k) batch = Some signed"
    using Suc.prems(2) by simp
  have IH': "sign_loop e batch (Suc h) ?w =
      Some (signed, Suc h + k,
            ?w\<lparr>sign_calls := sign_calls ?w + k + 1,
               console := console ?w @ failed_rounds batch (Suc h) k @ [Sign batch True]\<rparr>)"
    by (rule Suc.IH [OF rest last])
  show ?case
    apply (subst sign_loop.simps)
    apply (simp only: first option.simps)
    apply (subst IH')
    apply simp
    done
qed

lemma sign_loop_Some_success:
  "sign_loop e batch h w = Some y \<Longrightarrow> \<exists>j. sign_metadata e (sign_calls w + j) batch \<noteq> None"
proof (induction rule: sign_loop.raw_induct [rotated 1, consumes 1, case_names step])
  case (step sign_loop' e batch h w y)
  show ?case
  proof (cases "sign_metadata e (sign_calls w) batch")
    case None
    with step(2) obtain j where "sign_metadata e (Suc (sign_calls w) + j) batch \<noteq> None"
      using step(1) by fastforce
    then have "sign_metadata e (sign_calls w + Suc j) batch \<noteq> None" by simp
    then show ?thesis by blast
  next
    case (Some s)
    then have "sign_metadata e (sign_calls w + 0) batch \<noteq> None" by simp
    then show ?thesis by blast
  qed
qed

lemma sign_loop_diverges:
  "(\<forall>j. sign_metadata e (sign_calls w + j) batch = None) \<Longrightarrow> sign_loop e batch h w = None"
  using sign_loop_Some_success [of e batch h w] by (cases "sign_loop e batch h w") auto

lemma failed_rounds_later:
  "0 < h \<Longrightarrow> failed_rounds batch h k = concat (replicate k [Sign batch False, Sleep 1])"
  by (induction k arbitrary: h) auto

lemma failed_rounds_fresh: "failed_rounds batch 0 k = waiting_trace batch k"
  by (cases k) (simp_all add: waiting_trace_def failed_rounds_later)

text \<open>
  C7. The re-signing block never raises. If the first \<open>k\<close> signing calls of a batch
  fail and the next one succeeds, it returns the signed batch after \<open>k\<close> sleeps of one
  second, having printed the pause line once (at the first failure) and, when \<open>k > 0\<close>,
  the resume line once after the successful call. If every call fails, the loop goes on
  for ever: it neither returns nor raises.
\<close>

theorem signing_failures_absorbed:
  "((\<forall>j<k. sign_metadata e (sign_calls w + j) batch = None) \<and>
    sign_metadata e (sign_calls w + k) batch = Some signed \<longrightarrow>
      reauth e (Some b) batch w =
        Some (signed,
              w\<lparr>sign_calls := sign_calls w + k + 1,
                console := console w @ waiting_trace batch k @ [Sign batch True] @
                           (if k = 0 then [] else [Print_resumed])\<rparr>)) \<and>
   ((\<forall>j. sign_metadata e (sign_calls w + j) batch = None) \<longrightarrow>
      reauth e (Some b) batch w = None)"
proof (intro conjI impI)
  assume "(\<forall>j<k. sign_metadata e (sign_calls w + j) batch = None) \<and>
          sign_metadata e (sign_calls w + k) batch = Some signed"
  then have "sign_loop e batch 0 w =
     Some (signed, 0 + k,
           w\<lparr>sign_calls := sign_calls w + k + 1,
             console := console w @ failed_rounds batch 0 k @ [Sign batch True]\<rparr>)"
    using sign_loop_returns [of k e w batch signed 0] by blast
  then show "reauth e (Some b) batch w =
        Some (signed,
              w\<lparr>sign_calls := sign_calls w + k + 1,
                console := console w @ waiting_trace batch k @ [Sign batch True] @
                           (if k = 0 then [] else [Print_resumed])\<rparr>)"
    by (simp add: reauth_def emit_def failed_rounds_fresh)
next
  assume "\<forall>j. sign_metadata e (sign_calls w + j) batch = None"
  then show "reauth e (Some b) batch w = None"
    by (simp add: reauth_def sign_loop_diverges)
qed

theorem signing_failures_absorbed_witness:
  "reauth env_sign_twice (Some 10) two_items world0 =
     Some (two_items,
           world0\<lparr>sign_calls := 3,
                  console := [Sign two_items False, Print_paused, Sleep 1,
                              Sign two_items False, Sleep 1,
                              Sign two_items True, Print_resumed]\<rparr>) \<and>
   reauth env_sign_never (Some 10) two_items world0 = None"
  using signing_failures_absorbed [of 2 env_sign_twice world0 two_items two_items 10]
        signing_failures_absorbed [of 0 env_sign_never world0 two_items two_items 10]
  by (simp add: env_sign_twice_def env_sign_never_def world0_def waiting_trace_def
        less_Suc_eq numeral_2_eq_2)

section \<open>Batches partition the collection\<close>





section \<open>Without a re-signing interval\<close>

lemma whole_range: "0 < n \<Longrightarrow> py_range n n = Inr [0]"
proof -
  assume n: "0 < n"
  have "(n + (n - 1)) div n = (n - 1) div n + 1"
    using n by (metis div_add_self1 less_numeral_extra(3))
  then have "(n + n - 1) div n = 1" using n by simp
  then show ?thesis using n by (simp add: py_range_def)
qed

lemma single_batch_without_signing:
  "coll \<noteq> [] \<Longrightarrow>
     py_range (length coll) (batch_size_of None (length coll)) = Inr [0] \<and>
     slice coll 0 (batch_size_of None (length coll)) = coll \<and>
     download_batches e None (batch_size_of None (length coll)) coll fname [0] d w =
       Some (download_item_collection e (download_calls w) coll (fname 0) d,
             w\<lparr>download_calls := Suc (download_calls w),
               console := console w @ [Download coll (fname 0)]\<rparr>)"
  by (simp add: whole_range batch_size_of_def slice_def reauth_def)

text \<open>
  C3 (as amended). With \<^verbatim>\<open>reauth_batch_size=None\<close> and a non-empty collection the
  batch loop has the single offset 0, its slice is the whole collection, and the
  collection is handed to the download call without any call of the signing service:
  the only event is the download, and the count of signing calls is unchanged.
\<close>
theorem unsigned_single_batch:
  "coll \<noteq> [] \<Longrightarrow>
     py_range (length coll) (batch_size_of None (length coll)) = Inr [0] \<and>
     slice coll 0 (batch_size_of None (length coll)) = coll \<and>
     download_batches e None (batch_size_of None (length coll)) coll fname [0] d w =
       Some (download_item_collection e (download_calls w) coll (fname 0) d,
             w\<lparr>download_calls := Suc (download_calls w),
               console := console w @ [Download coll (fname 0)]\<rparr>)"
  by (rule single_batch_without_signing)

theorem unsigned_single_batch_witness:
  "two_items \<noteq> [] \<and>
   download_batches env_ok None (batch_size_of None (length two_items)) two_items
       batch_file_name [0] (Some []) world0 =
     Some (download_item_collection env_ok (download_calls world0) two_items
             (batch_file_name 0) (Some []),
           world0\<lparr>download_calls := Suc (download_calls world0),
                  console := console world0 @ [Download two_items (batch_file_name 0)]\<rparr>)"
proof -
  have ne: "two_items \<noteq> []" by (simp add: two_items_def)
  from unsigned_single_batch [OF ne, of env_ok batch_file_name "Some []" world0] ne
  show ?thesis by blast
qed

lemma unsigned_run:
  "async_download env_ok dl_unsigned world0 =
     Some (merge_collections env_ok
       (world0\<lparr>out_dir := fetch_ok 0 two_items (batch_file_name 0) (Some []),
               download_calls := 1,
               console := [Print_skip_preview, Download two_items (batch_file_name 0)]\<rparr>))"
proof -
  let ?w1 = "emit world0 [Print_skip_preview]"
  have ne: "two_items \<noteq> []" by (simp add: two_items_def)
  have len: "length two_items = 2" by (simp add: two_items_def)
  have sel: "item_coll dl_unsigned = two_items" "reauth_batch_size dl_unsigned = None"
    "preview_size dl_unsigned = 10" by (simp_all add: dl_unsigned_def)
  have pre: "preview_run env_ok dl_unsigned world0 = Some (Returned () ?w1)"
    by (simp add: preview_run_def sel len)
  note main = single_batch_without_signing [OF ne, of env_ok batch_file_name "out_dir ?w1" ?w1]
  have "async_download env_ok dl_unsigned world0 =
     Some (merge_collections env_ok
       (?w1\<lparr>download_calls := Suc (download_calls ?w1),
             console := console ?w1 @ [Download two_items (batch_file_name 0)],
             out_dir := download_item_collection env_ok (download_calls ?w1) two_items
                          (batch_file_name 0) (out_dir ?w1)\<rparr>))"
    by (simp only: async_download_def pre sel Let_def main [THEN conjunct1]
          main [THEN conjunct2, THEN conjunct2] option.case outcome.case sum.case prod.case)
  also have "?w1\<lparr>download_calls := Suc (download_calls ?w1),
             console := console ?w1 @ [Download two_items (batch_file_name 0)],
             out_dir := download_item_collection env_ok (download_calls ?w1) two_items
                          (batch_file_name 0) (out_dir ?w1)\<rparr> =
     world0\<lparr>out_dir := fetch_ok 0 two_items (batch_file_name 0) (Some []),
               download_calls := 1,
               console := [Print_skip_preview, Download two_items (batch_file_name 0)]\<rparr>"
    by (simp add: emit_def world0_def env_ok_def)
  finally show ?thesis .
qed

text \<open>
  C3 as stated fails: an attempt without re-signing interval makes no signing call at
  all, here on a collection of two items.
\<close>

theorem unsigned_batch_counterexample:
  "signings (async_download env_ok dl_unsigned world0) = Some [] \<and>
   downloads (async_download env_ok dl_unsigned world0) =
     Some [Download two_items (Some ''item-collection-batch-0.json'')]"
  apply (simp only: unsigned_run)
  apply (simp add: signings_def downloads_def merge_collections_def fetch_ok_def world0_def
      two_items_def mk_item_def put_entry_def artifact_name_def batch_file_name_def show_nat_def
      coll_paths_def startswith_def os_remove_def save_object_def)
  done

section \<open>Merging the batch artifacts: properties\<close>

lemma map_of_os_remove_other: "g \<noteq> f \<Longrightarrow> map_of (os_remove f es) g = map_of es g"
  by (induction es) (auto simp: os_remove_def)

lemma os_remove_names: "fst ` set (os_remove f es) \<subseteq> fst ` set es"
  by (auto simp: os_remove_def)

lemma distinct_os_remove: "distinct (map fst es) \<Longrightarrow> distinct (map fst (os_remove f es))"
  by (simp add: os_remove_def distinct_map_filter)

lemma readable_from_file:
  "readable_artifact es f \<Longrightarrow> from_file (map_of es f) = Inr (artifact_items es f)"
  by (auto simp: readable_artifact_def artifact_items_def split: option.splits node.splits)

lemma merge_loop_all_readable:
  "distinct fs \<Longrightarrow> \<forall>f\<in>set fs. readable_artifact es f \<Longrightarrow>
   merge_loop fs acc es =
     Inr (acc @ concat (map (artifact_items es) fs), fold os_remove fs es)"
proof (induction fs arbitrary: acc es)
  case Nil
  show ?case by simp
next
  case (Cons f fs)
  have f: "from_file (map_of es f) = Inr (artifact_items es f)"
    using Cons.prems(2) by (simp add: readable_from_file)
  have keep: "\<forall>g\<in>set fs. map_of (os_remove f es) g = map_of es g"
  proof
    fix g assume "g \<in> set fs"
    with Cons.prems(1) have "g \<noteq> f" by auto
    then show "map_of (os_remove f es) g = map_of es g" by (rule map_of_os_remove_other)
  qed
  then have r: "\<forall>g\<in>set fs. readable_artifact (os_remove f es) g"
    using Cons.prems(2) by (simp add: readable_artifact_def)
  have same: "map (artifact_items (os_remove f es)) fs = map (artifact_items es) fs"
    using keep by (simp add: artifact_items_def)
  from Cons.prems(1) have d: "distinct fs" by simp
  show ?case
    using Cons.IH [OF d r, of "acc @ artifact_items es f"] by (simp add: f same)
qed

lemma fold_os_remove_set:
  "set (fold os_remove fs es) = {(m, t) \<in> set es. \<not> (m \<in> set fs \<and> \<not> is_Dir t)}"
  by (induction fs arbitrary: es) (auto simp: os_remove_def)

lemma map_of_fold_os_remove:
  "g \<notin> set fs \<Longrightarrow> map_of (fold os_remove fs es) g = map_of es g"
  by (induction fs arbitrary: es) (auto simp: map_of_os_remove_other)

lemma artifact_not_batch: "\<not> startswith ''item-collection.json'' ''item-collection-batch-''"
  by (simp add: startswith_def)

lemma save_object_ok:
  "\<not> is_directory_entry es f \<Longrightarrow>
   \<exists>es'. save_object e f xs es = Inr es' \<and>
         map_of es' f = Some (File (json_size e xs) (Some xs)) \<and>
         (\<forall>g. g \<noteq> f \<longrightarrow> map_of es' g = map_of es g) \<and>
         fst ` set es' = insert f (fst ` set es)"
proof (cases "map_of es f")
  case None
  then have "f \<notin> fst ` set es" by (simp add: map_of_eq_None_iff)
  with None show ?thesis by (auto simp: save_object_def map_add_def split: option.splits)
next
  case (Some t)
  assume nd: "\<not> is_directory_entry es f"
  with Some obtain s c where t: "t = File s c"
    by (cases t) (auto simp: is_directory_entry_def)
  let ?g = "\<lambda>(m, u). if m = f \<and> \<not> is_Dir u then (m, File (json_size e xs) (Some xs)) else (m, u)"
  have look: "\<And>g. map_of (map ?g es) g =
      (if g = f then (case map_of es f of Some (File s' c') \<Rightarrow> Some (File (json_size e xs) (Some xs))
                                         | other \<Rightarrow> other)
       else map_of es g)"
    by (induction es) (auto split: node.splits)
  have names: "fst ` set (map ?g es) = fst ` set es"
    by (force simp: image_iff split: if_splits)
  have fin: "f \<in> fst ` set es" using Some by (metis map_of_eq_None_iff option.distinct(1))
  show ?thesis
    using Some t look names fin by (auto simp: save_object_def)
qed


lemma merge_collections_result:
  assumes dir: "out_dir w = Some es"
    and names: "distinct (map fst es)"
    and readable: "\<forall>f\<in>set (coll_paths es). readable_artifact es f"
    and target: "\<not> is_directory_entry es ''item-collection.json''"
  shows "\<exists>es'. merge_collections e w = Returned () (w\<lparr>out_dir := Some es'\<rparr>) \<and>
     map_of es' ''item-collection.json'' =
       Some (File (json_size e (concat (map (artifact_items es) (coll_paths es))))
                  (Some (concat (map (artifact_items es) (coll_paths es))))) \<and>
     (\<forall>f\<in>fst ` set es'. \<not> startswith f ''item-collection-batch-'')"
proof -
  let ?fs = "coll_paths es"
  let ?merged = "concat (map (artifact_items es) ?fs)"
  let ?es1 = "fold os_remove ?fs es"
  have dfs: "distinct ?fs" using names by (simp add: coll_paths_def)
  have loop: "merge_loop ?fs [] es = Inr (?merged, ?es1)"
    using merge_loop_all_readable [OF dfs readable, of "[]"] by simp
  have notin: "''item-collection.json'' \<notin> set ?fs"
    using artifact_not_batch by (simp add: coll_paths_def)
  have "map_of ?es1 ''item-collection.json'' = map_of es ''item-collection.json''"
    using notin by (rule map_of_fold_os_remove)
  then have target1: "\<not> is_directory_entry ?es1 ''item-collection.json''"
    using target by (simp add: is_directory_entry_def)
  from save_object_ok [OF target1, of e ?merged] obtain es' where
    save: "save_object e ''item-collection.json'' ?merged ?es1 = Inr es'"
    and look: "map_of es' ''item-collection.json'' = Some (File (json_size e ?merged) (Some ?merged))"
    and dom: "fst ` set es' = insert ''item-collection.json'' (fst ` set ?es1)"
    by blast
  have gone: "\<not> startswith m ''item-collection-batch-''" if m: "m \<in> fst ` set ?es1" for m
  proof
    assume pre: "startswith m ''item-collection-batch-''"
    from m obtain t where t: "(m, t) \<in> set ?es1" by auto
    then have in_es: "(m, t) \<in> set es" and keep: "\<not> (m \<in> set ?fs \<and> \<not> is_Dir t)"
      by (simp_all add: fold_os_remove_set)
    from in_es pre have mfs: "m \<in> set ?fs" by (force simp: coll_paths_def)
    from in_es names have "map_of es m = Some t" by simp
    with readable mfs have "\<not> is_Dir t"
      by (cases t) (auto simp: readable_artifact_def)
    with keep mfs show False by simp
  qed
  have "merge_collections e w = Returned () (w\<lparr>out_dir := Some es'\<rparr>)"
    by (simp add: merge_collections_def dir loop save)
  moreover have "\<forall>f\<in>fst ` set es'. \<not> startswith f ''item-collection-batch-''"
    using dom gone artifact_not_batch by auto
  ultimately show ?thesis using look by blast
qed

text \<open>
  C4 (as amended). In an output directory with distinct entry names in which every
  entry named \<^verbatim>\<open>item-collection-batch-*\<close> is a readable item collection (and
  \<^verbatim>\<open>item-collection.json\<close> is not a directory), the merge step returns normally.
  It concatenates the batch artifacts in the order in which the directory lists them,
  without sorting and without removing duplicates: the merged list has exactly the
  items of the artifacts, counted with multiplicity. It saves the merged list as
  \<^verbatim>\<open>item-collection.json\<close>, and afterwards no batch artifact is left. Nothing in the
  statement depends on the batch size.
\<close>

theorem merge_concatenates_in_listing_order:
  assumes "out_dir w = Some es"
    and "distinct (map fst es)"
    and "\<forall>f\<in>set (coll_paths es). readable_artifact es f"
    and "\<not> is_directory_entry es ''item-collection.json''"
  shows "\<exists>es' merged. merge_collections e w = Returned () (w\<lparr>out_dir := Some es'\<rparr>) \<and>
     merged = concat (map (artifact_items es) (coll_paths es)) \<and>
     mset merged = (\<Sum>f\<leftarrow>coll_paths es. mset (artifact_items es f)) \<and>
     map_of es' ''item-collection.json'' = Some (File (json_size e merged) (Some merged)) \<and>
     (\<forall>f\<in>fst ` set es'. \<not> startswith f ''item-collection-batch-'')"
proof -
  have "mset (concat (map (artifact_items es) (coll_paths es))) =
        (\<Sum>f\<leftarrow>coll_paths es. mset (artifact_items es f))"
    by (simp add: mset_concat comp_def)
  with merge_collections_result [OF assms, of e] show ?thesis by blast
qed


theorem merge_concatenates_in_listing_order_witness:
  "\<exists>es'. merge_collections env_ok (world0\<lparr>out_dir := Some merge_dir\<rparr>) =
           Returned () (world0\<lparr>out_dir := Some es'\<rparr>) \<and>
         map_of es' ''item-collection.json'' =
           Some (File 1 (Some [mk_item ''a'', mk_item ''b''])) \<and>
         (\<forall>f\<in>fst ` set es'. \<not> startswith f ''item-collection-batch-'')"
proof -
  let ?w = "world0\<lparr>out_dir := Some merge_dir\<rparr>"
  have paths: "coll_paths merge_dir = [''item-collection-batch-0.json'', ''item-collection-batch-1.json'']"
    by (simp add: coll_paths_def merge_dir_def startswith_def)
  have a: "out_dir ?w = Some merge_dir" by simp
  have b: "distinct (map fst merge_dir)" by (simp add: merge_dir_def)
  have c: "\<forall>f\<in>set (coll_paths merge_dir). readable_artifact merge_dir f"
    by (simp add: paths) (simp add: readable_artifact_def merge_dir_def)
  have d: "\<not> is_directory_entry merge_dir ''item-collection.json''"
    by (simp add: is_directory_entry_def merge_dir_def)
  have items: "concat (map (artifact_items merge_dir) (coll_paths merge_dir)) =
      [mk_item ''a'', mk_item ''b'']"
    by (simp add: paths) (simp add: artifact_items_def merge_dir_def)
  from merge_concatenates_in_listing_order [OF a b c d, of env_ok]
  show ?thesis by (auto simp: items env_ok_def)
qed

lemma reauth_first_try:
  "sign_metadata e (sign_calls w) batch = Some s \<Longrightarrow>
   reauth e (Some b) batch w =
     Some (s, w\<lparr>sign_calls := Suc (sign_calls w), console := console w @ [Sign batch True]\<rparr>)"
  using sign_loop_returns [of 0 e w batch s 0] by (simp add: reauth_def)

lemma newest_first_batches:
  "download_batches env_newest_first (Some 1) 1 two_items batch_file_name [0, 1] (Some [])
      (emit world0 [Print_skip_preview]) =
   Some (Some [(''item-collection-batch-1.json'', File 1 (Some [mk_item ''b''])),
               (''b'', Dir [(''asset'', File 1 None)]),
               (''item-collection-batch-0.json'', File 1 (Some [mk_item ''a''])),
               (''a'', Dir [(''asset'', File 1 None)])],
         world0\<lparr>sign_calls := 2, download_calls := 2,
                console := [Print_skip_preview,
                  Sign [mk_item ''a''] True,
                  Download [mk_item ''a''] (Some ''item-collection-batch-0.json''),
                  Sign [mk_item ''b''] True,
                  Download [mk_item ''b''] (Some ''item-collection-batch-1.json'')]\<rparr>)"
proof -
  have sm: "\<And>k bt. sign_metadata env_newest_first k bt = Some bt"
    by (simp add: env_newest_first_def)
  have dic: "download_item_collection env_newest_first = fetch_newest_first"
    by (simp add: env_newest_first_def)
  have f0: "batch_file_name 0 = Some ''item-collection-batch-0.json''"
    by (simp add: batch_file_name_def show_nat_def)
  have f1: "batch_file_name (Suc 0) = Some ''item-collection-batch-1.json''"
    by (simp add: batch_file_name_def show_nat_def)
  have s0: "slice two_items 0 (Suc 0) = [mk_item ''a'']" by (simp add: slice_def two_items_def)
  have s1: "slice two_items (Suc 0) (Suc 0) = [mk_item ''b'']"
    by (simp add: slice_def two_items_def)
  show ?thesis
    by (simp add: reauth_first_try sm dic f0 f1 s0 s1 emit_def world0_def
        fetch_newest_first_def put_first_def artifact_name_def mk_item_def)
qed

text \<open>
  C4 as stated fails in its order: the merge follows the directory listing, not the
  batches. Two batches \<open>[a]\<close> and \<open>[b]\<close> are downloaded in this order on a file system
  that lists the newest entry first, and the merged collection is \<open>[b, a]\<close>.
\<close>

theorem merge_batch_order_counterexample:
  "downloads (async_download env_newest_first dl_two_batches world0) =
     Some [Download [mk_item ''a''] (Some ''item-collection-batch-0.json''),
           Download [mk_item ''b''] (Some ''item-collection-batch-1.json'')] \<and>
   collection_after (async_download env_newest_first dl_two_batches world0) =
     Some [mk_item ''b'', mk_item ''a'']"
proof -
  have len: "length two_items = 2" by (simp add: two_items_def)
  have sel: "item_coll dl_two_batches = two_items" "reauth_batch_size dl_two_batches = Some 1"
    "preview_size dl_two_batches = 10" by (simp_all add: dl_two_batches_def)
  have pre: "preview_run env_newest_first dl_two_batches world0 =
      Some (Returned () (emit world0 [Print_skip_preview]))"
    by (simp add: preview_run_def sel len)
  have rng: "py_range (length two_items) 1 = Inr [0, 1]"
    by (simp add: len py_range_def upt_rec)
  have bs: "batch_size_of (Some 1) (length two_items) = 1" by (simp add: batch_size_of_def)
  have od: "out_dir (emit world0 [Print_skip_preview]) = Some []"
    by (simp add: emit_def world0_def)
  have run: "async_download env_newest_first dl_two_batches world0 =
     Some (merge_collections env_newest_first
       (world0\<lparr>sign_calls := 2, download_calls := 2,
                console := [Print_skip_preview,
                  Sign [mk_item ''a''] True,
                  Download [mk_item ''a''] (Some ''item-collection-batch-0.json''),
                  Sign [mk_item ''b''] True,
                  Download [mk_item ''b''] (Some ''item-collection-batch-1.json'')],
                out_dir := Some [(''item-collection-batch-1.json'', File 1 (Some [mk_item ''b''])),
               (''b'', Dir [(''asset'', File 1 None)]),
               (''item-collection-batch-0.json'', File 1 (Some [mk_item ''a''])),
               (''a'', Dir [(''asset'', File 1 None)])]\<rparr>))"
    by (simp only: async_download_def pre sel Let_def rng bs od newest_first_batches
          option.case outcome.case sum.case prod.case)
  show ?thesis
    apply (simp only: run)
    apply (simp add: downloads_def collection_after_def merge_collections_def world0_def
        coll_paths_def startswith_def os_remove_def save_object_def env_newest_first_def)
    done
qed

section \<open>Cleanup of empty item directories\<close>

lemma remove_ids_missing:
  "\<exists>i\<in>set rm_items. i \<notin> set all_items \<Longrightarrow> remove_ids rm_items all_items = None"
proof (induction rm_items arbitrary: all_items)
  case Nil
  then show ?case by simp
next
  case (Cons i rm_items)
  show ?case
  proof (cases "i \<in> set all_items")
    case False
    then show ?thesis by simp
  next
    case True
    from Cons.prems True obtain j where j: "j \<in> set rm_items" "j \<notin> set all_items" by auto
    then have "j \<notin> set (remove1 i all_items)" by (meson notin_set_remove1)
    with j(1) have "remove_ids rm_items (remove1 i all_items) = None"
      by (intro Cons.IH) blast
    with True show ?thesis by simp
  qed
qed

lemma walk_empty_mem:
  "p \<in> set (walk_empty dirpath es) \<longleftrightarrow>
     (es = [] \<and> p = dirpath) \<or>
     (\<exists>n sub. (n, Dir sub) \<in> set es \<and>
        ((sub = [] \<and> p = dirpath @ [n]) \<or>
         (sub \<noteq> [] \<and> p \<in> set (walk_empty (dirpath @ [n]) sub))))"
  by (subst walk_empty.simps) (auto split: node.splits if_splits)

lemma walk_empty_below:
  "p \<in> set (walk_empty dirpath es) \<Longrightarrow> es \<noteq> [] \<Longrightarrow> \<exists>q. q \<noteq> [] \<and> p = dirpath @ q"
proof (induction dirpath es arbitrary: p rule: walk_empty.induct)
  case (1 dirpath es)
  from "1.prems" obtain n sub where e: "(n, Dir sub) \<in> set es"
    and c: "(sub = [] \<and> p = dirpath @ [n]) \<or>
            (sub \<noteq> [] \<and> p \<in> set (walk_empty (dirpath @ [n]) sub))"
    by (auto simp: walk_empty_mem [of p dirpath es])
  show ?case
  proof (cases "sub = []")
    case True
    with c show ?thesis by auto
  next
    case False
    with c have "p \<in> set (walk_empty (dirpath @ [n]) sub)" by simp
    from "1.IH" [OF e refl refl False this False]
    obtain q where "p = (dirpath @ [n]) @ q" by blast
    then have "p = dirpath @ (n # q)" by simp
    then show ?thesis by blast
  qed
qed

lemma map_of_filter_dirs:
  "map_of es f = Some (File s c) \<Longrightarrow>
   map_of (filter (\<lambda>(m, t). \<not> (m = n \<and> is_Dir t)) es) f = Some (File s c)"
  by (induction es) (auto split: if_splits)

lemma map_of_map_dirs:
  assumes "\<And>m t. is_Dir t = False \<Longrightarrow> g (m, t) = (m, t)" and "\<And>m t. fst (g (m, t)) = m"
  shows "map_of es f = Some (File s c) \<Longrightarrow> map_of (map g es) f = Some (File s c)"
proof (induction es)
  case Nil
  then show ?case by simp
next
  case (Cons a es)
  obtain m t where a: "a = (m, t)" by (cases a)
  obtain m' t' where g: "g (m, t) = (m', t')" by (cases "g (m, t)")
  with assms(2) [of m t] have m': "m' = m" by simp
  show ?case
  proof (cases "m = f")
    case True
    with Cons.prems a have "t = File s c" by simp
    then have "g (m, t) = (m, t)" using assms(1) by simp
    with Cons.prems a True show ?thesis by simp
  next
    case False
    with Cons a g m' show ?thesis by simp
  qed
qed

lemma rmtree_keeps_files:
  assumes f: "map_of es f = Some (File s c)"
  shows "map_of (rmtree p es) f = Some (File s c)"
proof (cases p)
  case Nil
  with f show ?thesis by simp
next
  case (Cons n q)
  show ?thesis
  proof (cases q)
    case Nil
    with \<open>p = n # q\<close> map_of_filter_dirs [OF f, of n] show ?thesis by simp
  next
    case (Cons v va)
    let ?g = "\<lambda>(m, t). case t of Dir sub \<Rightarrow> if m = n then (m, Dir (rmtree (v # va) sub)) else (m, t)
                          | File s c \<Rightarrow> (m, t)"
    have "map_of (map ?g es) f = Some (File s c)"
      by (rule map_of_map_dirs [OF _ _ f]) (auto split: node.splits)
    with \<open>p = n # q\<close> Cons show ?thesis by simp
  qed
qed

lemma rmtree_removes: "p \<noteq> [] \<Longrightarrow> \<not> dir_exists p (rmtree p es)"
proof (induction p es rule: rmtree.induct)
  case (1 es)
  then show ?case by simp
next
  case (2 n es)
  show ?case by (auto simp: list_ex_iff split: node.splits)
next
  case (3 n v va es)
  show ?case
  proof
    assume "dir_exists (n # v # va) (rmtree (n # v # va) es)"
    then obtain m t where mt: "(m, t) \<in> set es" and
      ex: "(case (case t of Dir sub \<Rightarrow> if m = n then (m, Dir (rmtree (v # va) sub)) else (m, t)
                       | File s c \<Rightarrow> (m, t)) of
             (m', t') \<Rightarrow> m' = n \<and> (case t' of Dir sub \<Rightarrow> dir_exists (v # va) sub | File s c \<Rightarrow> False))"
      by (auto simp: list_ex_iff)
    then obtain sub where t: "t = Dir sub" "m = n" "dir_exists (v # va) (rmtree (v # va) sub)"
      by (cases t) (auto split: if_splits)
    from "3.IH" [OF mt refl t(1) t(2)] t(3) show False by simp
  qed
qed

lemma rmtree_only_removes: "dir_exists p (rmtree q es) \<Longrightarrow> dir_exists p es"
proof (induction q es arbitrary: p rule: rmtree.induct)
  case (1 es)
  then show ?case by simp
next
  case (2 n es)
  then show ?case by (cases p) (auto simp: list_ex_iff)
next
  case (3 n v va es)
  show ?case
  proof (cases p)
    case Nil
    then show ?thesis by simp
  next
    case (Cons k r)
    with "3.prems" obtain m t where mt: "(m, t) \<in> set es" and
      ex: "(case (case t of Dir sub \<Rightarrow> if m = n then (m, Dir (rmtree (v # va) sub)) else (m, t)
                       | File s c \<Rightarrow> (m, t)) of
             (m', t') \<Rightarrow> m' = k \<and> (case t' of Dir sub \<Rightarrow> dir_exists r sub | File s c \<Rightarrow> False))"
      by (auto simp: list_ex_iff)
    then obtain sub where t: "t = Dir sub" by (cases t) auto
    show ?thesis
    proof (cases "m = n")
      case True
      with ex t have k: "k = n" and "dir_exists r (rmtree (v # va) sub)" by auto
      with "3.IH" [OF mt refl t True] have "dir_exists r sub" by blast
      with mt t True k Cons show ?thesis
        by (auto simp: list_ex_iff intro!: bexI [of _ "(n, Dir sub)"])
    next
      case False
      with ex t have "m = k" "dir_exists r sub" by auto
      with mt t Cons show ?thesis
        by (auto simp: list_ex_iff intro!: bexI [of _ "(k, Dir sub)"])
    qed
  qed
qed

lemma foldl_rmtree_only_removes:
  "dir_exists p (foldl (\<lambda>es q. rmtree q es) es qs) \<Longrightarrow> dir_exists p es"
  by (induction qs arbitrary: es) (auto dest: rmtree_only_removes)

lemma foldl_rmtree_removes:
  "p \<in> set qs \<Longrightarrow> p \<noteq> [] \<Longrightarrow> \<not> dir_exists p (foldl (\<lambda>es q. rmtree q es) es qs)"
proof (induction qs arbitrary: es)
  case Nil
  then show ?case by simp
next
  case (Cons q qs)
  show ?case
  proof (cases "p = q")
    case True
    have "\<not> dir_exists p (rmtree p es)" using Cons.prems(2) by (rule rmtree_removes)
    then have "\<not> dir_exists p (foldl (\<lambda>es q. rmtree q es) (rmtree p es) qs)"
      using foldl_rmtree_only_removes by blast
    with True show ?thesis by simp
  next
    case False
    with Cons.prems have "p \<in> set qs" by simp
    from Cons.IH [OF this Cons.prems(2)] show ?thesis by simp
  qed
qed

lemma foldl_rmtree_keeps_files:
  "map_of es f = Some (File s c) \<Longrightarrow>
   map_of (foldl (\<lambda>es q. rmtree q es) es qs) f = Some (File s c)"
  by (induction qs arbitrary: es) (auto simp: rmtree_keeps_files)

lemma foldl_rmtree_dir:
  "\<forall>q\<in>set qs. q \<noteq> [] \<Longrightarrow>
   foldl rmtree_dir (Some es) qs = Some (foldl (\<lambda>es q. rmtree q es) es qs)"
  by (induction qs arbitrary: es) (auto simp: rmtree_dir_def)


lemma cleanup_raises_on_unknown_directory:
  assumes art: "map_of es ''item-collection.json'' = Some (File s (Some in_coll))"
    and p: "p \<in> set (find_empty_subdirs (Some es))"
    and unknown: "basename p \<notin> item_id ` set in_coll"
  shows "\<exists>es'. remove_empty_items e (Some es) = (Inl ValueError, Some es') \<and>
           (\<forall>q\<in>set (find_empty_subdirs (Some es)). \<not> dir_exists q es') \<and>
           map_of es' ''item-collection.json'' = Some (File s (Some in_coll))"
proof -
  let ?qs = "find_empty_subdirs (Some es)"
  let ?es' = "foldl (\<lambda>es q. rmtree q es) es ?qs"
  from art have ne: "es \<noteq> []" by auto
  have paths: "\<forall>q\<in>set ?qs. q \<noteq> []"
    using walk_empty_below [of _ "[]" es] ne by (auto simp: find_empty_subdirs_def)
  have fold: "foldl rmtree_dir (Some es) ?qs = Some ?es'"
    using paths by (rule foldl_rmtree_dir)
  have art': "map_of ?es' ''item-collection.json'' = Some (File s (Some in_coll))"
    using art by (rule foldl_rmtree_keeps_files)
  have "\<exists>i\<in>set (map basename ?qs). i \<notin> set (map item_id in_coll)"
    using p unknown by auto
  then have ids: "remove_ids (map basename ?qs) (map item_id in_coll) = None"
    by (rule remove_ids_missing)
  have "remove_empty_items e (Some es) = (Inl ValueError, Some ?es')"
    by (simp add: remove_empty_items_def Let_def fold art' ids)
  moreover have "\<forall>q\<in>set ?qs. \<not> dir_exists q ?es'"
    using paths foldl_rmtree_removes by blast
  ultimately show ?thesis using art' by blast
qed

text \<open>
  C10. When the output directory holds a readable \<^verbatim>\<open>item-collection.json\<close> and the walk
  finds an empty directory whose name is the id of no listed item, the cleanup raises
  \<^verbatim>\<open>ValueError\<close> (the \<^verbatim>\<open>list.remove\<close> of a missing id). By then every empty
  directory found by the walk has been deleted, and the item collection on disk is the
  one that was there before: the call is not atomic.
\<close>

theorem cleanup_not_atomic:
  assumes "map_of es ''item-collection.json'' = Some (File s (Some in_coll))"
    and "p \<in> set (find_empty_subdirs (Some es))"
    and "basename p \<notin> item_id ` set in_coll"
  shows "\<exists>es'. remove_empty_items e (Some es) = (Inl ValueError, Some es') \<and>
           (\<forall>q\<in>set (find_empty_subdirs (Some es)). \<not> dir_exists q es') \<and>
           map_of es' ''item-collection.json'' = Some (File s (Some in_coll))"
  using assms by (rule cleanup_raises_on_unknown_directory)

theorem cleanup_not_atomic_witness:
  "\<exists>es'. remove_empty_items env_ok (Some stray_dir) = (Inl ValueError, Some es') \<and>
         \<not> dir_exists [''stray''] es' \<and>
         map_of es' ''item-collection.json'' = Some (File 1 (Some [mk_item ''a'']))"
proof -
  have a: "map_of stray_dir ''item-collection.json'' = Some (File 1 (Some [mk_item ''a'']))"
    by (simp add: stray_dir_def)
  have b: "[''stray''] \<in> set (find_empty_subdirs (Some stray_dir))"
  proof -
    have "(''stray'', Dir []) \<in> set stray_dir" by (simp add: stray_dir_def)
    then have "[] @ [''stray''] \<in> set (walk_empty [] stray_dir)"
      unfolding walk_empty_mem [of _ "[]" stray_dir] by blast
    then show ?thesis by (simp add: find_empty_subdirs_def)
  qed
  have c: "basename [''stray''] \<notin> item_id ` set [mk_item ''a'']"
    by (simp add: basename_def mk_item_def)
  from cleanup_not_atomic [OF a b c, of env_ok] b show ?thesis by blast
qed

lemma walk_empty_files_only:
  assumes "sub \<noteq> []" and "\<forall>(k, u)\<in>set sub. \<not> is_Dir u"
  shows "walk_empty dp sub = []"
proof -
  have "p \<notin> set (walk_empty dp sub)" for p
  proof
    assume "p \<in> set (walk_empty dp sub)"
    then obtain n sub' where "(n, Dir sub') \<in> set sub"
      using assms(1) unfolding walk_empty_mem [of p dp sub] by blast
    with assms(2) show False by auto
  qed
  then show ?thesis by (meson last_in_set)
qed

lemma walk_empty_flat:
  assumes "es \<noteq> []"
    and "\<forall>(m, t)\<in>set es. case t of Dir sub \<Rightarrow> (\<forall>(k, u)\<in>set sub. \<not> is_Dir u) | File s c \<Rightarrow> True"
  shows "walk_empty [] es = map (\<lambda>n. [n]) (empty_names es)"
proof -
  have a: "concat (map (\<lambda>(n, t). case t of Dir sub \<Rightarrow> if sub = [] then [[] @ [n]] else []
                                    | File s c \<Rightarrow> []) es) = map (\<lambda>n. [n]) (empty_names es)"
    by (induction es) (auto simp: empty_names_def split: node.splits)
  have "\<forall>(n, t)\<in>set es. (case t of Dir sub \<Rightarrow> if sub = [] then []
                                                else walk_empty ([] @ [n]) sub
                                    | File s c \<Rightarrow> []) = []"
    using assms(2) by (auto split: node.splits simp: walk_empty_files_only [of _ "[_]"])
  then have b: "concat (map (\<lambda>(n, t). case t of Dir sub \<Rightarrow> if sub = [] then []
                                                else walk_empty ([] @ [n]) sub
                                    | File s c \<Rightarrow> []) es) = []"
    by (induction es) auto
  show ?thesis
    apply (subst walk_empty.simps)
    apply (simp only: a b)
    apply (simp add: assms(1))
    done
qed


lemma distinct_map_of: "distinct (map fst es) \<Longrightarrow> (m, t) \<in> set es \<longleftrightarrow> map_of es m = Some t"
  by (auto dest: map_of_SomeD)






section \<open>Signing calls of a whole attempt\<close>











lemma slices25:
  "slice items25 0 10 = take 10 items25"
  "slice items25 10 10 = take 10 (drop 10 items25)"
  "slice items25 20 10 = drop 20 items25"
  by (simp_all add: slice_def items25_def)













section \<open>The size estimate\<close>














section \<open>What the cleanup leaves\<close>




lemma async_download_one_unsigned_batch:
  assumes "reauth_batch_size dl = None" and "item_coll dl \<noteq> []"
    and "length (item_coll dl) < preview_size dl"
  shows "async_download e dl w =
     Some (merge_collections e
       (w\<lparr>download_calls := Suc (download_calls w),
          console := console w @ [Print_skip_preview,
                                  Download (item_coll dl) (batch_file_name 0)],
          out_dir := download_item_collection e (download_calls w) (item_coll dl)
                       (batch_file_name 0) (out_dir w)\<rparr>))"
proof -
  let ?w1 = "emit w [Print_skip_preview]"
  have pre: "preview_run e dl w = Some (Returned () ?w1)"
    using assms(3) by (simp add: preview_run_def)
  note main = single_batch_without_signing [OF assms(2), of e batch_file_name "out_dir ?w1" ?w1]
  have "async_download e dl w =
     Some (merge_collections e
       (?w1\<lparr>download_calls := Suc (download_calls ?w1),
             console := console ?w1 @ [Download (item_coll dl) (batch_file_name 0)],
             out_dir := download_item_collection e (download_calls ?w1) (item_coll dl)
                          (batch_file_name 0) (out_dir ?w1)\<rparr>))"
    by (simp only: async_download_def pre assms(1) Let_def main [THEN conjunct1]
          main [THEN conjunct2, THEN conjunct2] option.case outcome.case sum.case prod.case)
  then show ?thesis by (simp add: emit_def)
qed

lemma batch_file_name_0: "batch_file_name 0 = Some ''item-collection-batch-0.json''"
  by (simp add: batch_file_name_def show_nat_def)




text \<open>
  The statement above does not cover a preview that is downloaded in more than one
  batch. The preview loop passes no file name to the download call (lines 353-375,
  unlike line 440 of the main loop), so every batch writes the same
  \<^verbatim>\<open>item-collection.json\<close> and the file ends up listing the last batch only: here item
  \<open>a\<close> of the first batch has its asset on disk, is not listed, and the cleanup leaves
  that as it is.
\<close>

lemma preview_batches_overwrite_item_collection:
  "map_option fst (download_batches env_ok (Some 1) 1 two_items (\<lambda>i. None) [0, 1] (Some [])
      world0) = Some (Some overwritten_dir) \<and>
   remove_empty_items env_ok (Some overwritten_dir) = (Inr (), Some overwritten_dir)"
proof
  have sm: "\<And>k bt. sign_metadata env_ok k bt = Some bt" by (simp add: env_ok_def)
  have dic: "download_item_collection env_ok = fetch_ok" by (simp add: env_ok_def)
  have s0: "slice two_items 0 (Suc 0) = [mk_item ''a'']" by (simp add: slice_def two_items_def)
  have s1: "slice two_items (Suc 0) (Suc 0) = [mk_item ''b'']"
    by (simp add: slice_def two_items_def)
  show "map_option fst (download_batches env_ok (Some 1) 1 two_items (\<lambda>i. None) [0, 1] (Some [])
      world0) = Some (Some overwritten_dir)"
    by (simp add: reauth_first_try sm dic s0 s1 fetch_ok_def put_entry_def artifact_name_def
        mk_item_def overwritten_dir_def)
next
  have ne: "overwritten_dir \<noteq> []" by (simp add: overwritten_dir_def)
  have flat: "\<forall>(m, t)\<in>set overwritten_dir. case t of Dir sub \<Rightarrow> (\<forall>(k, u)\<in>set sub. \<not> is_Dir u)
                                      | File s c \<Rightarrow> True"
    by (simp add: overwritten_dir_def)
  have walk: "find_empty_subdirs (Some overwritten_dir) = []"
    using walk_empty_flat [OF ne flat]
    by (simp add: find_empty_subdirs_def empty_names_def overwritten_dir_def)
  show "remove_empty_items env_ok (Some overwritten_dir) = (Inr (), Some overwritten_dir)"
    by (simp add: remove_empty_items_def Let_def walk)
       (simp add: overwritten_dir_def save_object_def env_ok_def mk_item_def)
qed

section \<open>The extent of a collection\<close>

lemma bounds_union:
  assumes "(\<Union>g\<in>set gs. set g) \<noteq> {}"
  shows "bounds (unary_union gs) =
     Some (Min (fst ` (\<Union>g\<in>set gs. set g)), Min (snd ` (\<Union>g\<in>set gs. set g)),
           Max (fst ` (\<Union>g\<in>set gs. set g)), Max (snd ` (\<Union>g\<in>set gs. set g)))"
proof -
  have s: "set (concat gs) = (\<Union>g\<in>set gs. set g)" by simp
  with assms have "concat gs \<noteq> []" by (metis set_empty)
  then show ?thesis by (simp add: bounds_def unary_union_def del: set_concat) (simp only: s)
qed

text \<open>
  C8. For every non-empty list of items the extent is computed without error. Its
  spatial part is the single bounding box of the union of the repaired (zero-buffered)
  member geometries: the componentwise minimum and maximum over all their positions.
  Its temporal part is the single interval from the least to the greatest datetime of
  the members. The witness are the two unit squares at \<open>(0, 0)\<close> and \<open>(1, 1)\<close>, with
  bounding box \<open>[0, 0, 2, 2]\<close>.
\<close>

theorem extent_is_bounding_box_and_time_range:
  assumes "stac_item_list \<noteq> []"
  shows "create_full_extent buffer0 stac_item_list =
       Inr \<lparr>spatial = [bounds (unary_union (map (\<lambda>x. buffer0 (geometry x)) stac_item_list))],
            temporal = [(Min (datetime ` set stac_item_list),
                         Max (datetime ` set stac_item_list))]\<rparr> \<and>
     ((\<Union>x\<in>set stac_item_list. set (buffer0 (geometry x))) \<noteq> {} \<longrightarrow>
        bounds (unary_union (map (\<lambda>x. buffer0 (geometry x)) stac_item_list)) =
          Some (Min (fst ` (\<Union>x\<in>set stac_item_list. set (buffer0 (geometry x)))),
                Min (snd ` (\<Union>x\<in>set stac_item_list. set (buffer0 (geometry x)))),
                Max (fst ` (\<Union>x\<in>set stac_item_list. set (buffer0 (geometry x)))),
                Max (snd ` (\<Union>x\<in>set stac_item_list. set (buffer0 (geometry x))))))"
proof
  show "create_full_extent buffer0 stac_item_list =
       Inr \<lparr>spatial = [bounds (unary_union (map (\<lambda>x. buffer0 (geometry x)) stac_item_list))],
            temporal = [(Min (datetime ` set stac_item_list),
                         Max (datetime ` set stac_item_list))]\<rparr>"
    using assms
    by (simp add: create_full_extent_def get_spatial_extent_def get_temporal_extent_def
        Let_def comp_def)
next
  show "(\<Union>x\<in>set stac_item_list. set (buffer0 (geometry x))) \<noteq> {} \<longrightarrow>
        bounds (unary_union (map (\<lambda>x. buffer0 (geometry x)) stac_item_list)) =
          Some (Min (fst ` (\<Union>x\<in>set stac_item_list. set (buffer0 (geometry x)))),
                Min (snd ` (\<Union>x\<in>set stac_item_list. set (buffer0 (geometry x)))),
                Max (fst ` (\<Union>x\<in>set stac_item_list. set (buffer0 (geometry x)))),
                Max (snd ` (\<Union>x\<in>set stac_item_list. set (buffer0 (geometry x)))))"
    using bounds_union [of "map (\<lambda>x. buffer0 (geometry x)) stac_item_list"] by simp
qed

theorem extent_is_bounding_box_and_time_range_witness:
  "square_items \<noteq> [] \<and>
   create_full_extent (\<lambda>g. g) square_items =
     Inr \<lparr>spatial = [Some (0, 0, 2, 2)], temporal = [(3, 5)]\<rparr>"
proof -
  have ne: "square_items \<noteq> []" by (simp add: square_items_def)
  have b: "bounds (unary_union (map (\<lambda>x. geometry x) square_items)) = Some (0, 0, 2, 2)"
    by (simp add: bounds_def unary_union_def square_items_def)
  have t: "Min (datetime ` set square_items) = 3" "Max (datetime ` set square_items) = 5"
    by (simp_all add: square_items_def)
  from extent_is_bounding_box_and_time_range [OF ne, of "\<lambda>g. g"] ne b t
  show ?thesis by simp
qed

section \<open>The retry loop\<close>

lemma ratio_one: "0 < b \<Longrightarrow> (real a / real b = 1) = (a = b)"
  by (simp add: divide_eq_eq)

lemma run_loop_chain:
  assumes n: "retries dl = int n"
    and ne: "item_coll dl \<noteq> []"
    and k: "k < n"
    and chain: "\<forall>j\<le>k. attempt e dl j (ws j) = Some (Returned (cs j) (vs j))"
    and nxt: "\<forall>j<k. ws (Suc j) = emit (vs j) [Print_retry]"
    and notyet: "\<forall>j<k. length (cs j) \<noteq> length (item_coll dl)"
    and stop: "length (cs k) = length (item_coll dl) \<or> Suc k = n"
  shows "j \<le> k \<Longrightarrow>
     run_loop e dl [j..<n] locals (ws j) =
       Some (Returned (Some (cs k, real (length (cs k)) / real (length (item_coll dl))))
         (emit (vs k) (if length (cs k) = length (item_coll dl) then [] else [Print_not_all])))"
proof (induction "k - j" arbitrary: j locals)
  case 0
  then have jk: "j = k" by simp
  have pos: "0 < length (item_coll dl)" using ne by simp
  have upt: "[k..<n] = k # [Suc k..<n]" using k by (simp add: upt_rec)
  have att: "attempt e dl k (ws k) = Some (Returned (cs k) (vs k))" using chain by simp
  show ?case
  proof (cases "length (cs k) = length (item_coll dl)")
    case True
    then show ?thesis
      using pos by (simp add: jk upt att Let_def emit_def)
  next
    case False
    with stop have last: "Suc k = n" by simp
    then have nomore: "\<not> int k < retries dl - 1" using n by simp
    have rest: "[Suc k..<n] = []" using last by simp
    show ?thesis
      using False pos nomore by (simp only: jk upt rest) (simp add: att Let_def ratio_one)
  qed
next
  case (Suc d)
  then have jk: "j < k" by simp
  have pos: "0 < length (item_coll dl)" using ne by simp
  have upt: "[j..<n] = j # [Suc j..<n]" using jk k by (simp add: upt_rec)
  have att: "attempt e dl j (ws j) = Some (Returned (cs j) (vs j))" using chain jk by simp
  have no: "length (cs j) \<noteq> length (item_coll dl)" using notyet jk by simp
  have more: "int j < retries dl - 1" using n jk k by simp
  have step: "ws (Suc j) = emit (vs j) [Print_retry]" using nxt jk by simp
  have d: "d = k - Suc j" using Suc.hyps(2) by simp
  have le: "Suc j \<le> k" using jk by simp
  show ?case
    using Suc.hyps(1) [OF d le] no pos more
    by (simp add: upt att Let_def ratio_one step)
qed

text \<open>
  C1 (as amended). Let the collection be non-empty and the budget be \<open>n \<ge> 1\<close>. Suppose
  the attempts \<open>0, \<dots>, k\<close> of the loop (\<open>k < n\<close>) return normally with the item
  collections \<open>cs 0, \<dots>, cs k\<close>, each attempt after the first starting in the world that
  its predecessor left, after the retry line; none of the attempts before \<open>k\<close> retrieved
  as many items as requested; and attempt \<open>k\<close> did, or is the \<open>n\<close>-th attempt. Then
  \<^verbatim>\<open>run\<close> makes exactly these \<open>k + 1\<close> attempts, all with the same downloader and so
  on its original collection, and returns normally: it stops at the first attempt whose
  ratio is 1, and otherwise after the \<open>n\<close>-th attempt, where it prints that not all items
  were retrieved. The count and the ratio it reports are those of attempt \<open>k\<close>.
\<close>

theorem retry_loop_stops:
  assumes "retries dl = int n"
    and "item_coll dl \<noteq> []"
    and "k < n"
    and "\<forall>j\<le>k. attempt e dl j (ws j) = Some (Returned (cs j) (vs j))"
    and "\<forall>j<k. ws (Suc j) = emit (vs j) [Print_retry]"
    and "\<forall>j<k. length (cs j) \<noteq> length (item_coll dl)"
    and "length (cs k) = length (item_coll dl) \<or> Suc k = n"
  shows "run e dl (ws 0) =
     Some (Returned ()
       (emit (vs k)
          ((if length (cs k) = length (item_coll dl) then [] else [Print_not_all]) @
           [Print_downloaded (length (cs k)) (length (item_coll dl)),
            Print_success_rate (real (length (cs k)) / real (length (item_coll dl)))])))"
proof -
  have "run_loop e dl [0..<n] None (ws 0) =
       Some (Returned (Some (cs k, real (length (cs k)) / real (length (item_coll dl))))
         (emit (vs k) (if length (cs k) = length (item_coll dl) then [] else [Print_not_all])))"
    using run_loop_chain [OF assms, of 0 None] by simp
  then show ?thesis by (simp add: run_def assms(1) emit_def)
qed


lemma flaky_first_attempt:
  "attempt env_flaky dl_unsigned 0 world0 = Some (Returned [] world_after_first)"
proof -
  let ?d = "[(''a'', Dir []), (''b'', Dir []),
            (''item-collection.json'', File (Suc 0) (Some two_items))]"
  have sel: "reauth_batch_size dl_unsigned = None" "item_coll dl_unsigned = two_items"
    "preview_size dl_unsigned = 10" by (simp_all add: dl_unsigned_def)
  have ne: "item_coll dl_unsigned \<noteq> []" by (simp add: sel two_items_def)
  have small: "length (item_coll dl_unsigned) < preview_size dl_unsigned"
    by (simp add: sel two_items_def)
  have fetch: "fetch_flaky 0 two_items (batch_file_name 0) (Some []) =
      Some [(''a'', Dir []), (''b'', Dir []),
            (''item-collection-batch-0.json'', File (Suc 0) (Some two_items))]"
    by (simp add: fetch_flaky_def batch_file_name_0 artifact_name_def put_entry_def
        two_items_def mk_item_def)
  have dl: "async_download env_flaky dl_unsigned (emit world0 [Print_loop 0]) =
     Some (Returned ()
       (world0\<lparr>out_dir := Some ?d, download_calls := 1,
               console := [Print_loop 0, Print_skip_preview,
                           Download two_items (batch_file_name 0)]\<rparr>))"
    apply (simp only: async_download_one_unsigned_batch [OF sel(1) ne small] sel)
    apply (simp add: emit_def world0_def env_flaky_def fetch)
    apply (simp add: merge_collections_def coll_paths_def startswith_def os_remove_def
        save_object_def)
    done
  have ne': "?d \<noteq> []" by simp
  have flat: "\<forall>(m, t)\<in>set ?d. case t of Dir sub \<Rightarrow> (\<forall>(k, u)\<in>set sub. \<not> is_Dir u)
                                      | File s c \<Rightarrow> True"
    by simp
  have walk: "find_empty_subdirs (Some ?d) = [[''a''], [''b'']]"
    using walk_empty_flat [OF ne' flat] by (simp add: find_empty_subdirs_def empty_names_def)
  have clean: "remove_empty_items env_flaky (Some ?d) =
      (Inr (), Some [(''item-collection.json'', File (Suc 0) (Some []))])"
    by (simp add: remove_empty_items_def Let_def walk rmtree_dir_def basename_def)
       (simp add: two_items_def mk_item_def save_object_def env_flaky_def)
  show ?thesis
    by (simp add: attempt_def dl clean world_after_first_def)
qed

lemma flaky_second_attempt:
  "attempt env_flaky dl_unsigned 1 (emit world_after_first [Print_retry]) =
     Some (Returned two_items world_after_second)"
proof -
  let ?d = "[(''item-collection.json'', File (Suc 0) (Some two_items)),
             (''a'', Dir [(''asset'', File (Suc 0) None)]),
             (''b'', Dir [(''asset'', File (Suc 0) None)])]"
  let ?w = "emit (emit world_after_first [Print_retry]) [Print_loop (Suc 0)]"
  have sel: "reauth_batch_size dl_unsigned = None" "item_coll dl_unsigned = two_items"
    "preview_size dl_unsigned = 10" by (simp_all add: dl_unsigned_def)
  have ne: "item_coll dl_unsigned \<noteq> []" by (simp add: sel two_items_def)
  have small: "length (item_coll dl_unsigned) < preview_size dl_unsigned"
    by (simp add: sel two_items_def)
  have fetch: "fetch_flaky (Suc 0) two_items (batch_file_name 0)
        (Some [(''item-collection.json'', File (Suc 0) (Some []))]) =
      Some [(''item-collection.json'', File (Suc 0) (Some [])),
            (''a'', Dir [(''asset'', File (Suc 0) None)]),
            (''b'', Dir [(''asset'', File (Suc 0) None)]),
            (''item-collection-batch-0.json'', File (Suc 0) (Some two_items))]"
    by (simp add: fetch_flaky_def fetch_ok_def batch_file_name_0 artifact_name_def put_entry_def
        two_items_def mk_item_def)
  have dl: "async_download env_flaky dl_unsigned ?w =
     Some (Returned () (world_after_second\<lparr>out_dir := Some ?d\<rparr>))"
    apply (simp only: async_download_one_unsigned_batch [OF sel(1) ne small] sel)
    apply (simp add: emit_def world0_def world_after_first_def env_flaky_def fetch)
    apply (simp add: merge_collections_def coll_paths_def startswith_def os_remove_def
        save_object_def world_after_second_def world0_def)
    done
  have ne': "?d \<noteq> []" by simp
  have flat: "\<forall>(m, t)\<in>set ?d. case t of Dir sub \<Rightarrow> (\<forall>(k, u)\<in>set sub. \<not> is_Dir u)
                                      | File s c \<Rightarrow> True"
    by simp
  have walk: "find_empty_subdirs (Some ?d) = []"
    using walk_empty_flat [OF ne' flat] by (simp add: find_empty_subdirs_def empty_names_def)
  have clean: "remove_empty_items env_flaky (Some ?d) = (Inr (), Some ?d)"
    by (simp add: remove_empty_items_def Let_def walk)
       (simp add: two_items_def mk_item_def save_object_def env_flaky_def)
  show ?thesis
    by (simp add: attempt_def dl clean) (simp add: world_after_second_def)
qed

theorem retry_loop_stops_witness:
  "run env_flaky dl_unsigned world0 =
     Some (Returned ()
       (emit world_after_second [Print_downloaded 2 2, Print_success_rate 1]))"
proof -
  let ?ws = "\<lambda>j::nat. if j = 0 then world0 else emit world_after_first [Print_retry]"
  let ?vs = "\<lambda>j::nat. if j = 0 then world_after_first else world_after_second"
  let ?cs = "\<lambda>j::nat. if j = 0 then [] else two_items"
  have a: "retries dl_unsigned = int 3" by (simp add: dl_unsigned_def)
  have b: "item_coll dl_unsigned \<noteq> []" by (simp add: dl_unsigned_def two_items_def)
  have c: "(1::nat) < 3" by simp
  have d: "\<forall>j\<le>1. attempt env_flaky dl_unsigned j (?ws j) = Some (Returned (?cs j) (?vs j))"
    using flaky_first_attempt flaky_second_attempt by (simp add: le_Suc_eq)
  have e: "\<forall>j<1. ?ws (Suc j) = emit (?vs j) [Print_retry]" by simp
  have f: "\<forall>j<1. length (?cs j) \<noteq> length (item_coll dl_unsigned)"
    by (simp add: dl_unsigned_def two_items_def)
  have g: "length (?cs 1) = length (item_coll dl_unsigned) \<or> Suc 1 = 3"
    by (simp add: dl_unsigned_def)
  from retry_loop_stops [OF a b c d e f g]
  show ?thesis by (simp add: dl_unsigned_def two_items_def numeral_2_eq_2)
qed

text \<open>
  C1 as stated fails for two inputs that it includes: on an empty collection the first
  attempt returns and the ratio divides by zero, and with a budget of 0 the summary
  reads unbound variables.
\<close>

theorem retry_loop_counterexample:
  "raised_error (run env_ok dl_empty world0) = Some ZeroDivisionError \<and>
   raised_error (run env_ok dl_zero_retries world0) = Some UnboundLocalError"
proof
  let ?d = "[(''item-collection.json'', File (Suc 0) (Some []))]"
  let ?w1 = "world0\<lparr>out_dir := Some ?d, console := [Print_loop 0, Print_skip_preview]\<rparr>"
  have sel: "reauth_batch_size dl_empty = Some 1000" "item_coll dl_empty = []"
    "preview_size dl_empty = 10" "retries dl_empty = 3" by (simp_all add: dl_empty_def)
  have dl: "async_download env_ok dl_empty (emit world0 [Print_loop 0]) = Some (Returned () ?w1)"
    by (simp add: async_download_def preview_run_def sel batch_size_of_def py_range_def
        merge_collections_def coll_paths_def save_object_def emit_def world0_def env_ok_def)
  have ne': "?d \<noteq> []" by simp
  have flat: "\<forall>(m, t)\<in>set ?d. case t of Dir sub \<Rightarrow> (\<forall>(k, u)\<in>set sub. \<not> is_Dir u)
                                      | File s c \<Rightarrow> True"
    by simp
  have walk: "find_empty_subdirs (Some ?d) = []"
    using walk_empty_flat [OF ne' flat] by (simp add: find_empty_subdirs_def empty_names_def)
  have clean: "remove_empty_items env_ok (Some ?d) = (Inr (), Some ?d)"
    by (simp add: remove_empty_items_def Let_def walk) (simp add: save_object_def env_ok_def)
  have att: "attempt env_ok dl_empty 0 world0 = Some (Returned [] ?w1)"
    by (simp add: attempt_def dl clean)
  have "[0..<nat (retries dl_empty)] = 0 # [1, 2]" by (simp add: sel upt_rec)
  then show "raised_error (run env_ok dl_empty world0) = Some ZeroDivisionError"
    by (simp add: run_def att sel)
next
  show "raised_error (run env_ok dl_zero_retries world0) = Some UnboundLocalError"
    by (simp add: run_def dl_zero_retries_def)
qed

end
